theory Spec2Isabelle
  imports Complex_Main
begin

section \<open>Numbers of the source language\<close>

text \<open>
  The scanner (\<^verbatim>\<open>src/app.js\<close>, class \<^verbatim>\<open>DotProjector\<close>) computes with JavaScript
  numbers. In the pose metrics, landmark coordinates and everything obtained from them by
  addition, subtraction, multiplication, square root and division by a non-zero constant
  are modelled as \<^typ>\<open>real\<close>, without the rounding of doubles; the stabiliser, further
  down, is modelled with that rounding. Where the source divides by a quantity that can be
  zero, the quotient is a \<open>jsnum\<close>, which keeps the three non-finite results of the
  language apart: \<^verbatim>\<open>0/0\<close> is \<open>NaN\<close>, and a non-zero numerator over zero is an
  infinity. Both divisors of that kind in the source are square roots (or products of
  square roots), hence \<^verbatim>\<open>+0\<close> when they vanish, so the sign of the infinity is the sign
  of the numerator.
\<close>

datatype jsnum = Num real | PosInf | NegInf | NaN

definition jsdiv :: "real \<Rightarrow> real \<Rightarrow> jsnum" where
  "jsdiv a b =
     (if b \<noteq> 0 then Num (a / b)
      else if a = 0 then NaN
      else if 0 < a then PosInf else NegInf)"

text \<open>\<^verbatim>\<open>a * b\<close> and \<^verbatim>\<open>a + b\<close> on numbers that may be non-finite.\<close>

fun js_times :: "jsnum \<Rightarrow> jsnum \<Rightarrow> jsnum" where
  "js_times NaN _ = NaN"
| "js_times _ NaN = NaN"
| "js_times (Num a) (Num b) = Num (a * b)"
| "js_times (Num a) PosInf = (if a = 0 then NaN else if 0 < a then PosInf else NegInf)"
| "js_times (Num a) NegInf = (if a = 0 then NaN else if 0 < a then NegInf else PosInf)"
| "js_times PosInf (Num b) = (if b = 0 then NaN else if 0 < b then PosInf else NegInf)"
| "js_times NegInf (Num b) = (if b = 0 then NaN else if 0 < b then NegInf else PosInf)"
| "js_times PosInf PosInf = PosInf"
| "js_times NegInf NegInf = PosInf"
| "js_times PosInf NegInf = NegInf"
| "js_times NegInf PosInf = NegInf"

fun js_plus :: "jsnum \<Rightarrow> jsnum \<Rightarrow> jsnum" where
  "js_plus NaN _ = NaN"
| "js_plus _ NaN = NaN"
| "js_plus (Num a) (Num b) = Num (a + b)"
| "js_plus (Num a) PosInf = PosInf"
| "js_plus (Num a) NegInf = NegInf"
| "js_plus PosInf (Num b) = PosInf"
| "js_plus NegInf (Num b) = NegInf"
| "js_plus PosInf PosInf = PosInf"
| "js_plus NegInf NegInf = NegInf"
| "js_plus PosInf NegInf = NaN"
| "js_plus NegInf PosInf = NaN"

text \<open>\<^verbatim>\<open>Math.min\<close> and \<^verbatim>\<open>Math.max\<close>: \<open>NaN\<close> as soon as one argument is \<open>NaN\<close>.\<close>

fun js_min :: "jsnum \<Rightarrow> jsnum \<Rightarrow> jsnum" where
  "js_min NaN _ = NaN"
| "js_min _ NaN = NaN"
| "js_min NegInf _ = NegInf"
| "js_min _ NegInf = NegInf"
| "js_min PosInf b = b"
| "js_min a PosInf = a"
| "js_min (Num a) (Num b) = Num (min a b)"

fun js_max :: "jsnum \<Rightarrow> jsnum \<Rightarrow> jsnum" where
  "js_max NaN _ = NaN"
| "js_max _ NaN = NaN"
| "js_max PosInf _ = PosInf"
| "js_max _ PosInf = PosInf"
| "js_max NegInf b = b"
| "js_max a NegInf = a"
| "js_max (Num a) (Num b) = Num (max a b)"

text \<open>\<^verbatim>\<open>a < b\<close> and \<^verbatim>\<open>a >= b\<close>: every comparison with \<open>NaN\<close> is false.\<close>

fun js_less :: "jsnum \<Rightarrow> jsnum \<Rightarrow> bool" where
  "js_less NaN _ = False"
| "js_less _ NaN = False"
| "js_less (Num a) (Num b) = (a < b)"
| "js_less NegInf NegInf = False"
| "js_less NegInf _ = True"
| "js_less PosInf _ = False"
| "js_less (Num a) PosInf = True"
| "js_less (Num a) NegInf = False"

fun js_ge :: "jsnum \<Rightarrow> jsnum \<Rightarrow> bool" where
  "js_ge NaN _ = False"
| "js_ge _ NaN = False"
| "js_ge (Num a) (Num b) = (b \<le> a)"
| "js_ge PosInf _ = True"
| "js_ge NegInf NegInf = True"
| "js_ge NegInf _ = False"
| "js_ge (Num a) NegInf = True"
| "js_ge (Num a) PosInf = False"

text \<open>
  Signed zero. \<^verbatim>\<open>Math.atan2\<close> tells \<^verbatim>\<open>+0\<close> from \<^verbatim>\<open>-0\<close>, so the numbers that
  reach it are modelled as a real value together with the sign bit that the number has
  when the value is zero (\<open>True\<close> for \<^verbatim>\<open>-0\<close>); for a non-zero value the sign bit is
  read off the value and the stored flag is not looked at. A landmark coordinate that is
  zero is \<^verbatim>\<open>+0\<close>. Products and sums follow IEEE 754: the sign of a product is the
  exclusive or of the signs, and a sum that is zero is \<^verbatim>\<open>-0\<close> only when both summands
  are negative zeros.
\<close>

type_synonym signed = "real \<times> bool"

definition plain :: "real \<Rightarrow> signed" where
  "plain v = (v, False)"

definition signbit :: "signed \<Rightarrow> bool" where
  "signbit a = (if fst a = 0 then snd a else fst a < 0)"

definition sz_times :: "signed \<Rightarrow> signed \<Rightarrow> signed" where
  "sz_times a b = (fst a * fst b, signbit a \<noteq> signbit b)"

definition sz_plus :: "signed \<Rightarrow> signed \<Rightarrow> signed" where
  "sz_plus a b = (fst a + fst b, signbit a \<and> signbit b)"

definition sz_uminus :: "signed \<Rightarrow> signed" where
  "sz_uminus a = (- fst a, \<not> signbit a)"

definition sz_minus :: "signed \<Rightarrow> signed \<Rightarrow> signed" where
  "sz_minus a b = sz_plus a (sz_uminus b)"

text \<open>
  \<^verbatim>\<open>Math.atan2(y, x)\<close> on finite arguments, by the quadrant of \<open>(x, y)\<close> and, on
  the axes, by the signs of the zeros: \<^verbatim>\<open>atan2(+0, x)\<close> is \<open>pi\<close> and
  \<^verbatim>\<open>atan2(-0, x)\<close> is \<open>- pi\<close> for negative \<open>x\<close> and for \<^verbatim>\<open>x = -0\<close>. The result
  is a real: the sign of a zero result is dropped, nothing downstream reads it.
\<close>

definition atan2 :: "signed \<Rightarrow> signed \<Rightarrow> real" where
  "atan2 y x =
     (let b = fst y; a = fst x
      in if 0 < a then arctan (b / a)
         else if a < 0 then
           (if 0 < b \<or> (b = 0 \<and> \<not> signbit y) then arctan (b / a) + pi
            else arctan (b / a) - pi)
         else if 0 < b then pi / 2
         else if b < 0 then - (pi / 2)
         else if \<not> signbit x then 0
         else if signbit y then - pi else pi)"

text \<open>
  Double rounding. The stabiliser is the one place where a claim is about the exact value
  of a computed number, so its arithmetic is modelled with the rounding of IEEE 754
  binary64: every \<^verbatim>\<open>+\<close>, \<^verbatim>\<open>*\<close> and \<^verbatim>\<open>/\<close> there is the exact operation followed
  by \<open>binary64\<close>, rounding to the nearest number with a 53-bit significand, ties to the
  even significand, with the subnormal spacing \<open>2 powr -1074\<close> below \<open>2 powr -1022\<close>.
  Overflow to an infinity is not modelled: the function is the rounding of the language
  for values below \<open>2 powr 1024\<close> in magnitude.
\<close>

definition round_half_even :: "real \<Rightarrow> int" where
  "round_half_even r =
     (let f = \<lfloor>r\<rfloor>; d = r - of_int f
      in if d < 1 / 2 then f
         else if 1 / 2 < d then f + 1
         else if even f then f else f + 1)"

definition binary64 :: "real \<Rightarrow> real" where
  "binary64 v =
     (if v = 0 then 0
      else
        let e = max \<lfloor>log 2 \<bar>v\<bar>\<rfloor> (- 1022);
            q = 2 powr (of_int e - 52)
        in of_int (round_half_even (v / q)) * q)"

section \<open>Landmarks\<close>

text \<open>
  A landmark is an object \<^verbatim>\<open>{x, y, z}\<close>; a hand is an array of 21 of them, read by
  index (0 wrist, 1-4 thumb, 5-8 index, 9-12 middle, 13-16 ring, 17-20 pinky).
\<close>

record landmark =
  xc :: real
  yc :: real
  zc :: real

type_synonym landmarks = "landmark list"

section \<open>Pose metrics\<close>

definition calculatePalmCenter :: "landmarks \<Rightarrow> landmark" where
  "calculatePalmCenter lm =
     (let wrist = lm ! 0; middleBase = lm ! 9
      in \<lparr>xc = (xc wrist + xc middleBase) / 2,
          yc = (yc wrist + yc middleBase) / 2,
          zc = (zc wrist + zc middleBase) / 2\<rparr>)"

text \<open>
  \<^verbatim>\<open>calculatePalmArea\<close>: the shoelace sum over the polygon of wrist and finger bases;
  the loop pairs entry \<open>i\<close> of \<open>palmPoints\<close> with entry \<open>(i + 1) mod 5\<close>.
\<close>

definition palmPoints :: "nat list" where
  "palmPoints = [0, 5, 9, 13, 17]"

definition calculatePalmArea :: "landmarks \<Rightarrow> real" where
  "calculatePalmArea lm =
     (let area = fold (\<lambda>i area.
                   let j = (i + 1) mod length palmPoints;
                       p1 = lm ! (palmPoints ! i);
                       p2 = lm ! (palmPoints ! j)
                   in area + (xc p1 * yc p2 - xc p2 * yc p1))
                 [0..<length palmPoints] 0
      in \<bar>area / 2\<bar>)"

text \<open>
  \<^verbatim>\<open>calculateDistance(palmCenter)\<close> ignores its argument and reads the palm area of
  \<^verbatim>\<open>this.palmData\<close>; at each call modelled here that is the landmark set being
  assessed, which is the argument of the model. \<^verbatim>\<open>Math.round\<close> is
  \<open>\<lfloor>v + 1/2\<rfloor>\<close>, which is \<^const>\<open>round\<close>.
\<close>

definition calculateDistance :: "landmarks \<Rightarrow> int" where
  "calculateDistance palmData =
     (let palmArea = calculatePalmArea palmData
      in if palmArea > 0.08 then 5
         else if palmArea > 0.05 then round (5 + (0.08 - palmArea) * 500)
         else if palmArea > 0.01 then round (20 + (0.05 - palmArea) * 625)
         else round (45 + (0.01 - palmArea) * 4000))"

definition calculateFingerSpread :: "landmarks \<Rightarrow> real" where
  "calculateFingerSpread lm =
     (let fingertips = [4, 8, 12, 16, 20];
          totalSpread = fold (\<lambda>i total.
                          let p1 = lm ! (fingertips ! i);
                              p2 = lm ! (fingertips ! (i + 1))
                          in total + sqrt ((xc p1 - xc p2)\<^sup>2 + (yc p1 - yc p2)\<^sup>2))
                        [0..<length fingertips - 1] 0
      in totalSpread / real (length fingertips - 1))"

text \<open>
  \<^verbatim>\<open>checkFingerExtension\<close>: the quotient \<^verbatim>\<open>dot / (mag1 * mag2)\<close> is \<open>NaN\<close> for
  a finger with coinciding joints, and then not counted.
\<close>

definition fingerStraightness :: "landmarks \<Rightarrow> nat list \<Rightarrow> jsnum" where
  "fingerStraightness lm finger =
     (let base = lm ! (finger ! 0); middle = lm ! (finger ! 2); tip = lm ! (finger ! 3);
          v1x = xc middle - xc base; v1y = yc middle - yc base;
          v2x = xc tip - xc middle; v2y = yc tip - yc middle;
          dot = v1x * v2x + v1y * v2y;
          mag1 = sqrt (v1x * v1x + v1y * v1y);
          mag2 = sqrt (v2x * v2x + v2y * v2y)
      in jsdiv dot (mag1 * mag2))"

definition checkFingerExtension :: "landmarks \<Rightarrow> bool" where
  "checkFingerExtension lm =
     (let fingerGroups = [[5, 6, 7, 8], [9, 10, 11, 12], [13, 14, 15, 16], [17, 18, 19, 20]];
          extendedCount = fold (\<lambda>finger n.
                            if js_less (Num 0.5) (fingerStraightness lm finger)
                            then n + 1 else n)
                          fingerGroups (0::nat)
      in extendedCount \<ge> 3)"

definition checkHandFlatness :: "landmarks \<Rightarrow> bool" where
  "checkHandFlatness lm =
     (let palmCenter = calculatePalmCenter lm;
          fingerTips = [4, 8, 12, 16, 20];
          fingerMids = [3, 6, 10, 14, 18];
          openFingers = fold (\<lambda>i n.
                          let tip = lm ! (fingerTips ! i);
                              mid = lm ! (fingerMids ! i);
                              tipToPalmDist = sqrt ((xc tip - xc palmCenter)\<^sup>2
                                                  + (yc tip - yc palmCenter)\<^sup>2);
                              tipToMidDist = sqrt ((xc tip - xc mid)\<^sup>2 + (yc tip - yc mid)\<^sup>2)
                          in if tipToPalmDist > 0.15 \<and> tipToMidDist > 0.05 then n + 1 else n)
                        [0..<length fingerTips] (0::nat);
          palmBase = zc (lm ! 0);
          maxZDeviation = fold (\<lambda>idx m. max m \<bar>zc (lm ! idx) - palmBase\<bar>) fingerTips 0
      in openFingers \<ge> 3 \<and> maxZDeviation < 0.15)"

text \<open>
  \<^verbatim>\<open>checkPalmOrientation\<close> reads the handedness label of the detector
  (\<^verbatim>\<open>this.handedness === 'Left'\<close>); the label is \<open>None\<close> when none was reported.
\<close>

definition checkPalmOrientation :: "string option \<Rightarrow> landmarks \<Rightarrow> bool" where
  "checkPalmOrientation handedness lm =
     (let wrist = lm ! 0; indexMcp = lm ! 5; middleMcp = lm ! 9;
          ringMcp = lm ! 13; pinkyMcp = lm ! 17;
          isLeftHand = (handedness = Some ''Left'');
          fingertips = [lm ! 4, lm ! 8, lm ! 12, lm ! 16, lm ! 20];
          avgFingertipZ = foldl (\<lambda>sum tip. sum + zc tip) 0 fingertips / 5;
          avgMcpZ = (zc indexMcp + zc middleMcp + zc ringMcp + zc pinkyMcp) / 4;
          depthCheck = (avgFingertipZ < avgMcpZ + 0.01);
          v1x = xc indexMcp - xc wrist; v1y = yc indexMcp - yc wrist;
          v2x = xc pinkyMcp - xc wrist; v2y = yc pinkyMcp - yc wrist;
          normalz = v1x * v2y - v1y * v2x;
          normalCheck = (if isLeftHand then normalz < 0 else normalz > 0)
      in depthCheck \<and> normalCheck)"

text \<open>
  \<^verbatim>\<open>checkHandRotation\<close> takes the landmarks only. Whether the hand is a left hand is
  decided from the landmarks (\<^verbatim>\<open>index.x > pinky.x\<close>), not from the detector's label.
  The reference vector is \<open>(0, -1)\<close>.
\<close>

definition checkHandRotation :: "landmarks \<Rightarrow> real" where
  "checkHandRotation lm =
     (let wrist = lm ! 0; middleBase = lm ! 9; index = lm ! 5; pinky = lm ! 17;
          isLeftHand = (xc index > xc pinky);
          baseVectorx = sz_minus (plain (xc middleBase)) (plain (xc wrist));
          baseVectory = sz_minus (plain (yc middleBase)) (plain (yc wrist));
          verticalVectorx = plain 0; verticalVectory = plain (- 1);
          dot = sz_plus (sz_times baseVectorx verticalVectorx)
                        (sz_times baseVectory verticalVectory);
          det = sz_minus (sz_times baseVectorx verticalVectory)
                         (sz_times baseVectory verticalVectorx);
          angle = atan2 det dot * (180 / pi)
      in if isLeftHand then - angle else angle)"

text \<open>
  \<^verbatim>\<open>calculatePalmNormal\<close> divides the cross product by its length, so a vanishing
  cross product (wrist, index base and pinky base on one line) gives \<open>NaN\<close> in every
  component. Only the \<open>z\<close> component is read by the callers modelled here.
\<close>

definition calculatePalmNormal_z :: "landmarks \<Rightarrow> jsnum" where
  "calculatePalmNormal_z lm =
     (let wrist = lm ! 0; index = lm ! 5; pinky = lm ! 17;
          isLeftHand = (xc index > xc pinky);
          v1x = xc index - xc wrist; v1y = yc index - yc wrist; v1z = zc index - zc wrist;
          v2x = xc pinky - xc wrist; v2y = yc pinky - yc wrist; v2z = zc pinky - zc wrist;
          nx0 = v1y * v2z - v1z * v2y;
          ny0 = v1z * v2x - v1x * v2z;
          nz0 = v1x * v2y - v1y * v2x;
          nx = (if isLeftHand then nx0 * (- 1) else nx0);
          ny = (if isLeftHand then ny0 * (- 1) else ny0);
          nz = (if isLeftHand then nz0 * (- 1) else nz0);
          len = sqrt (nx * nx + ny * ny + nz * nz)
      in jsdiv nz len)"

definition calculateAlignment :: "landmarks \<Rightarrow> jsnum" where
  "calculateAlignment lm =
     (let margin = 0.03;
          criticalPoints = [0, 4, 8, 12, 16, 20];
          allVisible = fold (\<lambda>idx vis.
                         let landmark = lm ! idx
                         in if xc landmark < margin \<or> xc landmark > 1 - margin \<or>
                               yc landmark < margin \<or> yc landmark > 1 - margin
                            then False else vis)
                       criticalPoints True
      in if \<not> allVisible then Num 0
         else
           let palmArea = calculatePalmArea lm;
               minArea = 0.01; maxArea = 0.4;
               areaScore = (if palmArea < minArea then palmArea / minArea
                            else if palmArea > maxArea then 0.8 else 1);
               orientationScore =
                 js_max (Num 0) (js_min (Num 1) (js_times (calculatePalmNormal_z lm) (Num 1.5)));
               fingerSpread = calculateFingerSpread lm;
               spreadScore = min 1 (fingerSpread / 0.1);
               palmCenter = calculatePalmCenter lm;
               centerDistance = sqrt ((xc palmCenter - 0.5)\<^sup>2 + (yc palmCenter - 0.5)\<^sup>2);
               centerScore = max 0.5 (1 - centerDistance);
               alignment =
                 js_plus (js_plus (js_plus (Num (areaScore * 0.25))
                                           (js_times orientationScore (Num 0.35)))
                                  (Num (spreadScore * 0.15)))
                         (Num (centerScore * 0.25))
           in js_max (Num 0) (js_min (Num 1) alignment))"

section \<open>Scanner state\<close>

text \<open>
  The fields of \<^verbatim>\<open>DotProjector\<close> that the stabiliser, the validation chain, the
  auto-capture debouncer and \<^verbatim>\<open>capture()\<close> read or write. \<open>srcObject\<close> says whether
  the video element has a stream; \<open>status\<close> is the text and type last passed to
  \<^verbatim>\<open>updateStatus\<close>. Times are \<^verbatim>\<open>Date.now()\<close> milliseconds. A capture record is
  built and stored only by the asynchronous continuation of a capture that
  \<^verbatim>\<open>capture()\<close> has started; \<open>captureJobs\<close> lists the captures started, each with
  the landmark snapshot (\<^verbatim>\<open>currentPalmData\<close>) it was started on.
\<close>

datatype capture_job = RegularCapture landmarks | DualCapture landmarks

record scanner =
  palmData :: "landmarks option"
  handedness :: "string option"
  landmarkHistory :: "landmarks list"
  isAutoCapturing :: bool
  perfectAlignmentTime :: int
  lastCaptureTime :: int
  isScanning :: bool
  srcObject :: bool
  irMode :: bool
  status :: "string \<times> string"
  captureJobs :: "capture_job list"

definition historySize :: nat where
  "historySize = 5"

definition captureCooldown :: int where
  "captureCooldown = 3000"

definition updateStatus :: "string \<Rightarrow> string \<Rightarrow> scanner \<Rightarrow> scanner" where
  "updateStatus text type s = s\<lparr>status := (text, type)\<rparr>"

section \<open>Stabiliser\<close>

text \<open>
  \<^verbatim>\<open>stabilizeLandmarks\<close>: for each of the 21 points, the inner \<^verbatim>\<open>forEach\<close> adds the
  coordinates of frame \<open>frameIdx\<close> with weight \<open>(frameIdx + 1) / history.length\<close>
  and the sums are divided by the sum of the weights, in double arithmetic. The index and
  the length are small integers, exact as doubles.
\<close>

definition stabilizePoint :: "landmarks list \<Rightarrow> nat \<Rightarrow> landmark" where
  "stabilizePoint history i =
     (case fold (\<lambda>frameIdx (sx, sy, sz, weight).
                   let frame = history ! frameIdx;
                       w = binary64 ((real frameIdx + 1) / real (length history))
                   in (binary64 (sx + binary64 (xc (frame ! i) * w)),
                       binary64 (sy + binary64 (yc (frame ! i) * w)),
                       binary64 (sz + binary64 (zc (frame ! i) * w)),
                       binary64 (weight + w)))
                [0..<length history] (0, 0, 0, 0)
      of (sx, sy, sz, weight) \<Rightarrow>
           \<lparr>xc = binary64 (sx / weight), yc = binary64 (sy / weight),
            zc = binary64 (sz / weight)\<rparr>)"

definition stabilizeLandmarks :: "landmarks list \<Rightarrow> landmarks option" where
  "stabilizeLandmarks history =
     (if length history = 0 then None
      else if length history = 1 then Some (history ! 0)
      else Some (map (stabilizePoint history) [0..<21]))"

section \<open>Capture\<close>

text \<open>
  \<^verbatim>\<open>capture()\<close>, up to the point where the capture is handed to the canvas and its
  asynchronous continuation. The first exit leaves the debounce fields alone; the two
  re-validation exits and the normal exit clear them.
\<close>

definition capture :: "scanner \<Rightarrow> scanner" where
  "capture s =
     (case palmData s of
        None \<Rightarrow> updateStatus ''No palm detected'' ''error'' s
      | Some pd \<Rightarrow>
          if \<not> srcObject s then updateStatus ''No palm detected'' ''error'' s
          else
            let isHandFlat = checkHandFlatness pd;
                isPalmOriented = checkPalmOrientation (handedness s) pd
            in if \<not> isHandFlat then
                 (updateStatus ''Open your palm fully'' ''warning'' s)
                   \<lparr>isAutoCapturing := False, perfectAlignmentTime := 0\<rparr>
               else if \<not> isPalmOriented then
                 (updateStatus ''Face your palm to the camera'' ''warning'' s)
                   \<lparr>isAutoCapturing := False, perfectAlignmentTime := 0\<rparr>
               else
                 s\<lparr>captureJobs := captureJobs s @
                      [if irMode s then DualCapture pd else RegularCapture pd],
                   isAutoCapturing := False, perfectAlignmentTime := 0\<rparr>)"

section \<open>Auto-capture debouncer\<close>

text \<open>
  \<^verbatim>\<open>handlePerfectAlignment\<close> with \<^verbatim>\<open>Date.now()\<close> as the argument \<open>now\<close>. The
  boolean says whether \<^verbatim>\<open>this.capture()\<close> was called.
\<close>

definition handlePerfectAlignment :: "int \<Rightarrow> scanner \<Rightarrow> scanner \<times> bool" where
  "handlePerfectAlignment now s =
     (if now - lastCaptureTime s < captureCooldown then (s, False)
      else
        let s1 = (if \<not> isAutoCapturing s
                  then s\<lparr>isAutoCapturing := True, perfectAlignmentTime := now\<rparr> else s)
        in if now - perfectAlignmentTime s1 \<ge> 500
           then ((capture s1)\<lparr>isAutoCapturing := False, lastCaptureTime := now\<rparr>, True)
           else (s1, False))"

section \<open>Validation chain\<close>

datatype classification =
  OutOfFrame | FingersNotExtended | TooClose | TooFar | NotCentered
  | WrongOrientation | Rotated real | NotFlat | Perfect

text \<open>
  The visibility loop and the \<^verbatim>\<open>if / else if\<close> chain at the end of
  \<^verbatim>\<open>updatePalmVisualization\<close>, as the branch taken. The last outer branch has a guard
  of its own and no \<^verbatim>\<open>else\<close> follows it: \<open>None\<close> is the case where no branch is
  taken. \<open>Rotated\<close> carries the angle, whose sign selects the message.
\<close>

definition fullyVisible :: "landmarks \<Rightarrow> bool" where
  "fullyVisible lm =
     (let margin = 0.05
      in fold (\<lambda>landmark vis.
                 if xc landmark < margin \<or> xc landmark > 1 - margin \<or>
                    yc landmark < margin \<or> yc landmark > 1 - margin
                 then False else vis)
              lm True)"

definition classify :: "string option \<Rightarrow> landmarks \<Rightarrow> classification option" where
  "classify label lm =
     (let distance = calculateDistance lm;
          alignment = calculateAlignment lm;
          fingersExtended = checkFingerExtension lm
      in if \<not> fullyVisible lm then Some OutOfFrame
         else if \<not> fingersExtended then Some FingersNotExtended
         else if distance < 5 then Some TooClose
         else if distance > 45 then Some TooFar
         else if js_less alignment (Num 0.3) then Some NotCentered
         else if distance \<ge> 5 \<and> distance \<le> 45 \<and> js_ge alignment (Num 0.3) \<and> fingersExtended
         then
           let isHandFlat = checkHandFlatness lm;
               isPalmFacingCamera = checkPalmOrientation label lm;
               rotation = checkHandRotation lm
           in if \<not> isPalmFacingCamera then Some WrongOrientation
              else if \<bar>rotation\<bar> > 30 then Some (Rotated rotation)
              else if \<not> isHandFlat then Some NotFlat
              else Some Perfect
         else None)"

text \<open>
  The bodies of the branches. Every branch but the last one sets a status and clears the
  debounce fields; the last one hands over to \<^verbatim>\<open>handlePerfectAlignment\<close>. The arrow
  glyph that ends the two rotation messages in the source is left out of the strings.
\<close>

definition resetAlignment :: "string \<Rightarrow> string \<Rightarrow> scanner \<Rightarrow> scanner" where
  "resetAlignment text type s =
     (updateStatus text type s)\<lparr>perfectAlignmentTime := 0, isAutoCapturing := False\<rparr>"

fun applyClassification :: "int \<Rightarrow> classification option \<Rightarrow> scanner \<Rightarrow> scanner \<times> bool" where
  "applyClassification now None s = (s, False)"
| "applyClassification now (Some OutOfFrame) s =
     (resetAlignment ''Show entire hand in frame'' ''error'' s, False)"
| "applyClassification now (Some FingersNotExtended) s =
     (resetAlignment ''Extend your fingers'' ''warning'' s, False)"
| "applyClassification now (Some TooClose) s =
     (resetAlignment ''Move hand back slightly'' ''warning'' s, False)"
| "applyClassification now (Some TooFar) s =
     (resetAlignment ''Move hand closer'' ''warning'' s, False)"
| "applyClassification now (Some NotCentered) s =
     (resetAlignment ''Center your palm'' ''warning'' s, False)"
| "applyClassification now (Some WrongOrientation) s =
     (resetAlignment ''Close your palm a bit'' ''warning'' s, False)"
| "applyClassification now (Some (Rotated rotation)) s =
     (resetAlignment (if rotation > 0 then ''Rotate hand counter-clockwise''
                      else ''Rotate hand clockwise'') ''warning'' s, False)"
| "applyClassification now (Some NotFlat) s =
     (resetAlignment ''Open your palm fully'' ''warning'' s, False)"
| "applyClassification now (Some Perfect) s =
     handlePerfectAlignment now (updateStatus ''Perfect! Hold steady'' ''success'' s)"

definition updatePalmVisualization :: "int \<Rightarrow> landmarks \<Rightarrow> scanner \<Rightarrow> scanner \<times> bool" where
  "updatePalmVisualization now lm s = applyClassification now (classify (handedness s) lm) s"

section \<open>Detector callback and session control\<close>

text \<open>
  \<^verbatim>\<open>onHandResults(results)\<close>: \<open>multiHandLandmarks\<close> and \<open>multiHandedness\<close> are the
  arrays of the detector's result, empty when absent; of the handedness entries only the
  label is kept.
\<close>

record hand_results =
  multiHandLandmarks :: "landmarks list"
  multiHandedness :: "string list"

definition onHandResults :: "int \<Rightarrow> hand_results \<Rightarrow> scanner \<Rightarrow> scanner \<times> bool" where
  "onHandResults now results s =
     (case multiHandLandmarks results of
        rawLandmarks # _ \<Rightarrow>
          let pushed = landmarkHistory s @ [rawLandmarks];
              history = (if length pushed > historySize then tl pushed else pushed);
              s1 = s\<lparr>landmarkHistory := history, palmData := stabilizeLandmarks history\<rparr>;
              s2 = (case multiHandedness results of
                      label # _ \<Rightarrow> s1\<lparr>handedness := Some label\<rparr>
                    | [] \<Rightarrow> s1)
          in (case palmData s2 of
                Some pd \<Rightarrow> updatePalmVisualization now pd s2
              | None \<Rightarrow> (s2, False))
      | [] \<Rightarrow>
          ((updateStatus ''Place your palm in view'' ''warning'' s)
             \<lparr>palmData := None, handedness := None, landmarkHistory := []\<rparr>, False))"

definition stopScanning :: "scanner \<Rightarrow> scanner" where
  "stopScanning s = (updateStatus ''Ready to Scan'' [] s)\<lparr>isScanning := False, srcObject := False\<rparr>"

text \<open>
  \<^verbatim>\<open>startScanning()\<close>, with the outcome of the camera detection and of
  \<^verbatim>\<open>getUserMedia\<close> as arguments. The guard \<^verbatim>\<open>isProcessingStart\<close> against a second
  call during the first is left out: calls do not overlap here. A failure to get the
  stream ends in the \<^verbatim>\<open>catch\<close> block, which sets a status and calls
  \<^verbatim>\<open>stopScanning\<close>.
\<close>

definition startScanning :: "bool \<Rightarrow> bool \<Rightarrow> scanner \<Rightarrow> scanner" where
  "startScanning camerasFound streamGranted s =
     (if isScanning s then stopScanning s
      else if \<not> camerasFound then
        (updateStatus ''No cameras found'' ''error'' s)\<lparr>isScanning := False\<rparr>
      else
        let s1 = updateStatus ''Starting camera...'' ''scanning'' (s\<lparr>isScanning := True\<rparr>)
        in if \<not> streamGranted then
             stopScanning (updateStatus ''Camera access denied'' ''error'' s1)
           else updateStatus ''Detecting hands...'' ''scanning'' (s1\<lparr>srcObject := True\<rparr>))"

text \<open>
  Runs of frames. \<open>runFrames\<close> feeds the debouncer a list of frames given by their time
  and the branch the validation chain took, and returns the times at which
  \<^verbatim>\<open>this.capture()\<close> was called. \<open>perfectFrames t0 n\<close> is \<open>n\<close> frames classified
  \<open>Perfect\<close>, 100 ms apart, the first at \<open>t0\<close>. \<open>feedFrames\<close> passes landmark sets
  to the detector callback.
\<close>

fun runFrames :: "(int \<times> classification option) list \<Rightarrow> scanner \<Rightarrow> scanner \<times> int list" where
  "runFrames [] s = (s, [])"
| "runFrames ((now, c) # fs) s =
     (case applyClassification now c s of
        (s', fired) \<Rightarrow>
          (case runFrames fs s' of
             (s'', fires) \<Rightarrow> (s'', (if fired then [now] else []) @ fires)))"

definition perfectFrames :: "int \<Rightarrow> nat \<Rightarrow> (int \<times> classification option) list" where
  "perfectFrames t0 n = map (\<lambda>k. (t0 + 100 * int k, Some Perfect)) [0..<n]"

fun feedFrames :: "(int \<times> hand_results) list \<Rightarrow> scanner \<Rightarrow> scanner" where
  "feedFrames [] s = s"
| "feedFrames ((now, r) # fs) s = feedFrames fs (fst (onHandResults now r s))"

section \<open>Concrete inputs\<close>

text \<open>The state that the constructor of \<^verbatim>\<open>DotProjector\<close> sets up.\<close>

definition initialScanner :: scanner where
  "initialScanner =
     \<lparr>palmData = None, handedness = None, landmarkHistory = [],
      isAutoCapturing = False, perfectAlignmentTime = 0, lastCaptureTime = 0,
      isScanning = False, srcObject = False, irMode = False,
      status = ([], []), captureJobs = []\<rparr>"


text \<open>
  A right hand held upright with the palm to the camera, all points at depth 0: wrist at
  the bottom, four straight fingers, thumb to the side.
\<close>

definition pt :: "real \<Rightarrow> real \<Rightarrow> landmark" where
  "pt a b = \<lparr>xc = a, yc = b, zc = 0\<rparr>"

definition perfectHand :: landmarks where
  "perfectHand =
     [pt 0.5 0.8,
      pt 0.4 0.75, pt 0.3 0.7, pt 0.2 0.65, pt 0.1 0.6,
      pt 0.4 0.5, pt 0.4 0.4, pt 0.4 0.3, pt 0.4 0.2,
      pt 0.5 0.5, pt 0.5 0.4, pt 0.5 0.3, pt 0.5 0.2,
      pt 0.6 0.5, pt 0.6 0.4, pt 0.6 0.3, pt 0.6 0.2,
      pt 0.7 0.5, pt 0.7 0.4, pt 0.7 0.3, pt 0.7 0.2]"

text \<open>
  A scanning session, the detector results with and without a hand, the state after the
  first frame showing \<open>perfectHand\<close>, and a state whose handedness label says
  \<open>Left\<close> while the landmarks are those of \<open>perfectHand\<close>.
\<close>

definition scanningScanner :: scanner where
  "scanningScanner = initialScanner\<lparr>isScanning := True, srcObject := True\<rparr>"

definition perfectResults :: hand_results where
  "perfectResults = \<lparr>multiHandLandmarks = [perfectHand], multiHandedness = [''Right'']\<rparr>"

definition noHandResults :: hand_results where
  "noHandResults = \<lparr>multiHandLandmarks = [], multiHandedness = []\<rparr>"

definition armedScanner :: scanner where
  "armedScanner = fst (onHandResults 10000 perfectResults scanningScanner)"

definition staleScanner :: scanner where
  "staleScanner = scanningScanner\<lparr>palmData := Some perfectHand, handedness := Some ''Left''\<rparr>"

text \<open>
  A hand whose palm polygon is a triangle of width 0.4 and height \<open>h\<close>, of area
  \<open>h / 5\<close>.
\<close>

definition palmOfHeight :: "real \<Rightarrow> landmarks" where
  "palmOfHeight h =
     [pt 0.5 0.8,
      pt 0.4 0.75, pt 0.3 0.7, pt 0.2 0.65, pt 0.1 0.6,
      pt 0.3 (0.8 - h), pt 0.3 (0.7 - h), pt 0.3 (0.6 - h), pt 0.3 (0.5 - h),
      pt 0.4 (0.8 - h), pt 0.4 (0.7 - h), pt 0.4 (0.6 - h), pt 0.4 (0.5 - h),
      pt 0.6 (0.8 - h), pt 0.6 (0.7 - h), pt 0.6 (0.6 - h), pt 0.6 (0.5 - h),
      pt 0.7 (0.8 - h), pt 0.7 (0.7 - h), pt 0.7 (0.6 - h), pt 0.7 (0.5 - h)]"

text \<open>
  The rotation angle as the specification words it: the signed angle in degrees between
  the vector from wrist to middle-finger base and the up vector \<open>(0, -1)\<close>, by
  \<open>atan2\<close> of cross and dot product, negated when the handedness label is
  \<open>Left\<close>. It is compared with \<open>checkHandRotation\<close> below.
\<close>

definition rotationDeg_spec :: "landmarks \<Rightarrow> string option \<Rightarrow> real" where
  "rotationDeg_spec lm label =
     (let vx = sz_minus (plain (xc (lm ! 9))) (plain (xc (lm ! 0)));
          vy = sz_minus (plain (yc (lm ! 9))) (plain (yc (lm ! 0)));
          upx = plain 0; upy = plain (- 1);
          dot = sz_plus (sz_times vx upx) (sz_times vy upy);
          cross = sz_minus (sz_times vx upy) (sz_times vy upx);
          angle = atan2 cross dot * (180 / pi)
      in if label = Some ''Left'' then - angle else angle)"

text \<open>
  A hand tilted by 45 degrees whose index base lies to the left of its pinky base; the
  upright hand with the thumb tip at the left edge of the frame and 0.2 off the wrist's
  depth; and a hand whose wrist, index base and pinky base lie on one line, with
  coordinates that are exact binary fractions.
\<close>

definition tiltedHand :: landmarks where
  "tiltedHand =
     [pt 0.5 0.8,
      pt 0.4 0.75, pt 0.3 0.7, pt 0.2 0.65, pt 0.1 0.6,
      pt 0.5 0.6, pt 0.6 0.5, pt 0.7 0.4, pt 0.8 0.3,
      pt 0.6 0.7, pt 0.7 0.6, pt 0.8 0.5, pt 0.9 0.4,
      pt 0.7 0.8, pt 0.8 0.7, pt 0.9 0.6, pt 0.9 0.5,
      pt 0.8 0.9, pt 0.85 0.8, pt 0.9 0.75, pt 0.9 0.7]"

definition edgeHand :: landmarks where
  "edgeHand =
     [pt 0.5 0.8,
      pt 0.4 0.75, pt 0.3 0.7, pt 0.2 0.65, \<lparr>xc = 0.02, yc = 0.6, zc = 0.2\<rparr>,
      pt 0.4 0.5, pt 0.4 0.4, pt 0.4 0.3, pt 0.4 0.2,
      pt 0.5 0.5, pt 0.5 0.4, pt 0.5 0.3, pt 0.5 0.2,
      pt 0.6 0.5, pt 0.6 0.4, pt 0.6 0.3, pt 0.6 0.2,
      pt 0.7 0.5, pt 0.7 0.4, pt 0.7 0.3, pt 0.7 0.2]"

definition degenerateHand :: landmarks where
  "degenerateHand =
     [pt (1/2) (3/4),
      pt (3/8) (3/4), pt (5/16) (11/16), pt (1/4) (5/8), pt (3/16) (9/16),
      pt (3/8) (1/2), pt (3/8) (3/8), pt (3/8) (1/4), pt (3/8) (1/8),
      pt (1/2) (1/2), pt (1/2) (3/8), pt (1/2) (1/4), pt (1/2) (1/8),
      pt (5/8) (1/2), pt (5/8) (3/8), pt (5/8) (1/4), pt (5/8) (1/8),
      pt (7/16) (5/8), pt (7/16) (1/2), pt (7/16) (3/8), pt (7/16) (1/4)]"

text \<open>
  Notions for stating how far the stabiliser's output is from its input. \<open>weightOf\<close>,
  \<open>weightedSum\<close> and \<open>weightSum\<close> name the weight of a frame and the two sums that
  \<open>stabilizePoint\<close> accumulates for one coordinate. \<open>close a v\<close> says that \<open>a\<close> is
  within a relative error of \<open>2 powr -48\<close> of \<open>v\<close>, and \<open>inRange v\<close> that \<open>v\<close> is
  zero or of a magnitude between \<open>2 powr -1000\<close> and \<open>2 powr 1000\<close>, where the sums
  neither underflow nor overflow.
\<close>

definition weightOf :: "nat \<Rightarrow> nat \<Rightarrow> real" where
  "weightOf n k = binary64 ((real k + 1) / real n)"

definition weightedSum :: "nat \<Rightarrow> (nat \<Rightarrow> real) \<Rightarrow> real" where
  "weightedSum n val = fold (\<lambda>k s. binary64 (s + binary64 (val k * weightOf n k))) [0..<n] 0"

definition weightSum :: "nat \<Rightarrow> real" where
  "weightSum n = fold (\<lambda>k s. binary64 (s + weightOf n k)) [0..<n] 0"

definition close :: "real \<Rightarrow> real \<Rightarrow> bool" where
  "close a v \<longleftrightarrow> \<bar>a - v\<bar> \<le> \<bar>v\<bar> / 2 ^ 48"

definition inRange :: "real \<Rightarrow> bool" where
  "inRange v \<longleftrightarrow> v = 0 \<or> (1 / 2 ^ 1000 \<le> \<bar>v\<bar> \<and> \<bar>v\<bar> \<le> 2 ^ 1000)"

definition closePoint :: "landmark \<Rightarrow> landmark \<Rightarrow> bool" where
  "closePoint p q \<longleftrightarrow> close (xc p) (xc q) \<and> close (yc p) (yc q) \<and> close (zc p) (zc q)"

definition inRangePoint :: "landmark \<Rightarrow> bool" where
  "inRangePoint p \<longleftrightarrow> inRange (xc p) \<and> inRange (yc p) \<and> inRange (zc p)"

text \<open>
  The hand of \<open>perfectHand\<close> as the detector delivers it: each coordinate is the double
  that the decimal literal denotes.
\<close>

definition pt64 :: "real \<Rightarrow> real \<Rightarrow> landmark" where
  "pt64 a b = \<lparr>xc = binary64 a, yc = binary64 b, zc = 0\<rparr>"

definition literalHand :: landmarks where
  "literalHand =
     [pt64 0.5 0.8,
      pt64 0.4 0.75, pt64 0.3 0.7, pt64 0.2 0.65, pt64 0.1 0.6,
      pt64 0.4 0.5, pt64 0.4 0.4, pt64 0.4 0.3, pt64 0.4 0.2,
      pt64 0.5 0.5, pt64 0.5 0.4, pt64 0.5 0.3, pt64 0.5 0.2,
      pt64 0.6 0.5, pt64 0.6 0.4, pt64 0.6 0.3, pt64 0.6 0.2,
      pt64 0.7 0.5, pt64 0.7 0.4, pt64 0.7 0.3, pt64 0.7 0.2]"

definition literalResults :: hand_results where
  "literalResults = \<lparr>multiHandLandmarks = [literalHand], multiHandedness = [''Right'']\<rparr>"

section \<open>The debouncer on runs of frames\<close>

lemma capture_lastCaptureTime [simp]: "lastCaptureTime (capture s) = lastCaptureTime s"
  by (simp add: capture_def updateStatus_def Let_def split: option.splits)

lemma perfect_in_cooldown:
  "now - lastCaptureTime s < captureCooldown \<Longrightarrow>
   applyClassification now (Some Perfect) s = (updateStatus ''Perfect! Hold steady'' ''success'' s, False)"
  by (simp add: handlePerfectAlignment_def updateStatus_def)

lemma perfect_arms:
  "\<not> isAutoCapturing s \<Longrightarrow> captureCooldown \<le> now - lastCaptureTime s \<Longrightarrow>
   applyClassification now (Some Perfect) s =
     ((updateStatus ''Perfect! Hold steady'' ''success'' s)
        \<lparr>isAutoCapturing := True, perfectAlignmentTime := now\<rparr>, False)"
  by (simp add: handlePerfectAlignment_def updateStatus_def Let_def)

lemma perfect_holds:
  "isAutoCapturing s \<Longrightarrow> captureCooldown \<le> now - lastCaptureTime s \<Longrightarrow>
   now - perfectAlignmentTime s < 500 \<Longrightarrow>
   applyClassification now (Some Perfect) s = (updateStatus ''Perfect! Hold steady'' ''success'' s, False)"
  by (simp add: handlePerfectAlignment_def updateStatus_def Let_def)

lemma perfect_fires:
  "isAutoCapturing s \<Longrightarrow> captureCooldown \<le> now - lastCaptureTime s \<Longrightarrow>
   500 \<le> now - perfectAlignmentTime s \<Longrightarrow>
   snd (applyClassification now (Some Perfect) s) \<and>
   \<not> isAutoCapturing (fst (applyClassification now (Some Perfect) s)) \<and>
   lastCaptureTime (fst (applyClassification now (Some Perfect) s)) = now"
  by (simp add: handlePerfectAlignment_def updateStatus_def Let_def)

lemma not_perfect_step:
  "c \<noteq> Some Perfect \<Longrightarrow>
   \<not> snd (applyClassification now c s) \<and>
   lastCaptureTime (fst (applyClassification now c s)) = lastCaptureTime s"
  by (cases "(now, c, s)" rule: applyClassification.cases)
     (simp_all add: resetAlignment_def updateStatus_def)

lemma step_in_cooldown:
  "now - lastCaptureTime s < captureCooldown \<Longrightarrow>
   \<not> snd (applyClassification now c s) \<and>
   lastCaptureTime (fst (applyClassification now c s)) = lastCaptureTime s \<and>
   (isAutoCapturing (fst (applyClassification now c s)) \<longrightarrow> isAutoCapturing s)"
  by (cases "(now, c, s)" rule: applyClassification.cases)
     (simp_all add: resetAlignment_def updateStatus_def handlePerfectAlignment_def)

lemma run_in_cooldown:
  "\<forall>f \<in> set fs. fst f - lastCaptureTime s < captureCooldown \<Longrightarrow>
   snd (runFrames fs s) = [] \<and>
   lastCaptureTime (fst (runFrames fs s)) = lastCaptureTime s \<and>
   (isAutoCapturing (fst (runFrames fs s)) \<longrightarrow> isAutoCapturing s)"
proof (induction fs arbitrary: s)
  case Nil
  then show ?case by simp
next
  case (Cons f fs)
  obtain now c where f: "f = (now, c)" by (cases f)
  obtain s' fired where st: "applyClassification now c s = (s', fired)"
    by (cases "applyClassification now c s")
  from Cons.prems f have cd: "now - lastCaptureTime s < captureCooldown" by simp
  from step_in_cooldown [OF cd, of c] st
  have nf: "\<not> fired" and l: "lastCaptureTime s' = lastCaptureTime s"
    and a: "isAutoCapturing s' \<longrightarrow> isAutoCapturing s"
    by simp_all
  from Cons.prems l have "\<forall>f \<in> set fs. fst f - lastCaptureTime s' < captureCooldown" by simp
  from Cons.IH [OF this] l a nf f st show ?case
    by (simp split: prod.splits)
qed

lemma runFrames_append:
  "runFrames (fs @ gs) s =
     (case runFrames fs s of (s', f1) \<Rightarrow> (case runFrames gs s' of (s'', f2) \<Rightarrow> (s'', f1 @ f2)))"
  by (induction fs arbitrary: s) (auto split: prod.splits)

lemma perfectFrames_Suc:
  "perfectFrames t0 (Suc n) = (t0, Some Perfect) # perfectFrames (t0 + 100) n"
proof -
  have "[0..<Suc n] = 0 # map Suc [0..<n]"
    by (simp add: upt_conv_Cons map_Suc_upt del: upt_Suc)
  then show ?thesis
    by (simp add: perfectFrames_def comp_def algebra_simps del: upt_Suc)
qed

lemma perfectFrames_0 [simp]: "perfectFrames t0 0 = []"
  by (simp add: perfectFrames_def)

lemma perfectFrames_add:
  "perfectFrames t0 (m + n) = perfectFrames t0 m @ perfectFrames (t0 + 100 * int m) n"
proof (induction m arbitrary: t0)
  case 0
  then show ?case by simp
next
  case (Suc m)
  have "perfectFrames t0 (Suc m + n) = (t0, Some Perfect) # perfectFrames (t0 + 100) (m + n)"
    by (simp add: perfectFrames_Suc)
  also have "\<dots> = (t0, Some Perfect) # (perfectFrames (t0 + 100) m @ perfectFrames (t0 + 100 + 100 * int m) n)"
    by (simp add: Suc.IH)
  finally show ?case by (simp add: perfectFrames_Suc algebra_simps)
qed

lemma perfectFrames_times:
  "f \<in> set (perfectFrames t0 n) \<Longrightarrow> t0 \<le> fst f \<and> fst f < t0 + 100 * int n"
  by (auto simp: perfectFrames_def)

lemma run_holding:
  "isAutoCapturing s \<Longrightarrow> perfectAlignmentTime s = a \<Longrightarrow>
   captureCooldown \<le> t - lastCaptureTime s \<Longrightarrow> 0 \<le> t - a \<Longrightarrow> t - a + 100 * int n \<le> 500 + 99 \<Longrightarrow>
   snd (runFrames (perfectFrames t n) s) = [] \<and>
   isAutoCapturing (fst (runFrames (perfectFrames t n) s)) \<and>
   perfectAlignmentTime (fst (runFrames (perfectFrames t n) s)) = a \<and>
   lastCaptureTime (fst (runFrames (perfectFrames t n) s)) = lastCaptureTime s"
proof (induction n arbitrary: s t)
  case 0
  then show ?case by simp
next
  case (Suc n)
  let ?s' = "updateStatus ''Perfect! Hold steady'' ''success'' s"
  from Suc.prems have h: "t - perfectAlignmentTime s < 500" by simp
  have st: "applyClassification t (Some Perfect) s = (?s', False)"
    using perfect_holds [OF Suc.prems(1) Suc.prems(3) h] .
  have p: "isAutoCapturing ?s'" "perfectAlignmentTime ?s' = a" "lastCaptureTime ?s' = lastCaptureTime s"
    using Suc.prems by (simp_all add: updateStatus_def)
  have "snd (runFrames (perfectFrames (t + 100) n) ?s') = [] \<and>
   isAutoCapturing (fst (runFrames (perfectFrames (t + 100) n) ?s')) \<and>
   perfectAlignmentTime (fst (runFrames (perfectFrames (t + 100) n) ?s')) = a \<and>
   lastCaptureTime (fst (runFrames (perfectFrames (t + 100) n) ?s')) = lastCaptureTime ?s'"
    using Suc.prems p by (intro Suc.IH) (simp_all add: captureCooldown_def)
  with st p show ?case
    by (simp add: perfectFrames_Suc split: prod.splits)
qed

lemma run_from_idle:
  assumes idle: "\<not> isAutoCapturing s" and cd: "captureCooldown \<le> t0 - lastCaptureTime s"
    and n: "n \<le> 5"
  shows "snd (runFrames (perfectFrames t0 n) s) = [] \<and>
         lastCaptureTime (fst (runFrames (perfectFrames t0 n) s)) = lastCaptureTime s \<and>
         (0 < n \<longrightarrow> isAutoCapturing (fst (runFrames (perfectFrames t0 n) s)) \<and>
                     perfectAlignmentTime (fst (runFrames (perfectFrames t0 n) s)) = t0) \<and>
         (n = 0 \<longrightarrow> \<not> isAutoCapturing (fst (runFrames (perfectFrames t0 n) s)))"
proof (cases n)
  case 0
  with idle show ?thesis by simp
next
  case (Suc m)
  let ?s1 = "(updateStatus ''Perfect! Hold steady'' ''success'' s)
               \<lparr>isAutoCapturing := True, perfectAlignmentTime := t0\<rparr>"
  have st: "applyClassification t0 (Some Perfect) s = (?s1, False)"
    using perfect_arms [OF idle cd] .
  have p: "isAutoCapturing ?s1" "perfectAlignmentTime ?s1 = t0"
    "lastCaptureTime ?s1 = lastCaptureTime s"
    by (simp_all add: updateStatus_def)
  have "snd (runFrames (perfectFrames (t0 + 100) m) ?s1) = [] \<and>
        isAutoCapturing (fst (runFrames (perfectFrames (t0 + 100) m) ?s1)) \<and>
        perfectAlignmentTime (fst (runFrames (perfectFrames (t0 + 100) m) ?s1)) = t0 \<and>
        lastCaptureTime (fst (runFrames (perfectFrames (t0 + 100) m) ?s1)) = lastCaptureTime ?s1"
    using p cd n Suc by (intro run_holding) (simp_all add: captureCooldown_def)
  with st p Suc show ?thesis
    by (simp add: perfectFrames_Suc split: prod.splits)
qed

lemma run_hold_and_fire:
  assumes idle: "\<not> isAutoCapturing s" and cd: "captureCooldown \<le> t0 - lastCaptureTime s"
  shows "snd (runFrames (perfectFrames t0 6) s) = [t0 + 500] \<and>
         \<not> isAutoCapturing (fst (runFrames (perfectFrames t0 6) s)) \<and>
         lastCaptureTime (fst (runFrames (perfectFrames t0 6) s)) = t0 + 500"
proof -
  obtain s5 f5 where r5: "runFrames (perfectFrames t0 5) s = (s5, f5)"
    by (cases "runFrames (perfectFrames t0 5) s")
  from run_from_idle [OF idle cd, of 5] r5
  have f5: "f5 = []" and a5: "isAutoCapturing s5" and p5: "perfectAlignmentTime s5 = t0"
    and l5: "lastCaptureTime s5 = lastCaptureTime s"
    by simp_all
  have cd5: "captureCooldown \<le> (t0 + 500) - lastCaptureTime s5"
    using cd l5 by simp
  have h5: "500 \<le> (t0 + 500) - perfectAlignmentTime s5"
    using p5 by simp
  obtain s6 fired where r6: "applyClassification (t0 + 500) (Some Perfect) s5 = (s6, fired)"
    by (cases "applyClassification (t0 + 500) (Some Perfect) s5")
  from perfect_fires [OF a5 cd5 h5] r6
  have "fired" "\<not> isAutoCapturing s6" "lastCaptureTime s6 = t0 + 500" by simp_all
  moreover have "perfectFrames t0 6 = perfectFrames t0 5 @ [(t0 + 500, Some Perfect)]"
    using perfectFrames_add [of t0 5 1] by (simp add: perfectFrames_Suc)
  ultimately show ?thesis
    using r5 r6 f5 by (simp add: runFrames_append)
qed

lemma run_after_fire:
  assumes idle: "\<not> isAutoCapturing s" and m: "m \<le> 34"
  shows "snd (runFrames (perfectFrames (lastCaptureTime s + 100) m) s) = []"
proof -
  let ?F = "lastCaptureTime s"
  define a where "a = min m 29"
  define b where "b = m - a"
  have ab: "m = a + b" and a29: "a \<le> 29" and b5: "b \<le> 5"
    using m by (simp_all add: a_def b_def)
  have split: "perfectFrames (?F + 100) m =
     perfectFrames (?F + 100) a @ perfectFrames (?F + 100 + 100 * int a) b"
    unfolding ab by (rule perfectFrames_add)
  obtain s1 f1 where r1: "runFrames (perfectFrames (?F + 100) a) s = (s1, f1)"
    by (cases "runFrames (perfectFrames (?F + 100) a) s")
  have "\<forall>f \<in> set (perfectFrames (?F + 100) a). fst f - ?F < captureCooldown"
    using a29 by (auto simp: captureCooldown_def dest!: perfectFrames_times)
  from run_in_cooldown [OF this] r1 idle
  have f1: "f1 = []" and l1: "lastCaptureTime s1 = ?F" and i1: "\<not> isAutoCapturing s1"
    by auto
  show ?thesis
  proof (cases "b = 0")
    case True
    with split r1 f1 show ?thesis by simp
  next
    case False
    then have a: "a = 29" by (simp add: a_def b_def min_def split: if_splits)
    have cd: "captureCooldown \<le> (?F + 100 + 100 * int a) - lastCaptureTime s1"
      using l1 a by (simp add: captureCooldown_def)
    obtain s2 f2
      where r2: "runFrames (perfectFrames (?F + 100 + 100 * int a) b) s1 = (s2, f2)"
      by (cases "runFrames (perfectFrames (?F + 100 + 100 * int a) b) s1")
    from run_from_idle [OF i1 cd b5] r2
    have "f2 = []" by simp
    with split r1 f1 r2 show ?thesis
      by (simp add: runFrames_append)
  qed
qed


text \<open>
  C1. From the idle debounce state with the cooldown elapsed, frames classified
  \<open>Perfect\<close> that arrive 100 ms apart call the capture exactly once, at the frame
  500 ms after the first one and at no earlier frame. After each of the first five
  frames the debouncer is armed and \<open>perfectAlignmentTime\<close> is still the time of the
  first frame. The run covers up to 40 frames: the 41st frame is the first at which the
  3000 ms cooldown after the capture and a new 500 ms hold have both gone by.
\<close>

theorem debounce_fires_once_after_hold:
  assumes idle: "\<not> isAutoCapturing s"
    and cd: "captureCooldown \<le> t0 - lastCaptureTime s"
    and n: "n \<le> 40"
  shows "snd (runFrames (perfectFrames t0 n) s) = (if 6 \<le> n then [t0 + 500] else []) \<and>
         (\<forall>k. 0 < k \<and> k \<le> 5 \<longrightarrow>
            snd (runFrames (perfectFrames t0 k) s) = [] \<and>
            isAutoCapturing (fst (runFrames (perfectFrames t0 k) s)) \<and>
            perfectAlignmentTime (fst (runFrames (perfectFrames t0 k) s)) = t0)"
proof (rule conjI)
  show "\<forall>k. 0 < k \<and> k \<le> 5 \<longrightarrow>
            snd (runFrames (perfectFrames t0 k) s) = [] \<and>
            isAutoCapturing (fst (runFrames (perfectFrames t0 k) s)) \<and>
            perfectAlignmentTime (fst (runFrames (perfectFrames t0 k) s)) = t0"
    using run_from_idle [OF idle cd] by simp
next
  show "snd (runFrames (perfectFrames t0 n) s) = (if 6 \<le> n then [t0 + 500] else [])"
  proof (cases "6 \<le> n")
    case False
    then have "n \<le> 5" by simp
    from run_from_idle [OF idle cd this] False show ?thesis by simp
  next
    case True
    define m where "m = n - 6"
    have nm: "n = 6 + m" and m34: "m \<le> 34" using True n by (simp_all add: m_def)
    obtain s6 f6 where r6: "runFrames (perfectFrames t0 6) s = (s6, f6)"
      by (cases "runFrames (perfectFrames t0 6) s")
    from run_hold_and_fire [OF idle cd] r6
    have f6: "f6 = [t0 + 500]" and i6: "\<not> isAutoCapturing s6"
      and l6: "lastCaptureTime s6 = t0 + 500"
      by simp_all
    have "perfectFrames t0 n = perfectFrames t0 6 @ perfectFrames (lastCaptureTime s6 + 100) m"
      unfolding nm l6 using perfectFrames_add [of t0 6 m] by (simp add: add.commute)
    moreover obtain s7 f7
      where r7: "runFrames (perfectFrames (lastCaptureTime s6 + 100) m) s6 = (s7, f7)"
      by (cases "runFrames (perfectFrames (lastCaptureTime s6 + 100) m) s6")
    moreover have "f7 = []"
      using run_after_fire [OF i6 m34] r7 by simp
    ultimately show ?thesis
      using True r6 f6 by (simp add: runFrames_append)
  qed
qed

theorem debounce_fires_once_after_hold_witness:
  "\<not> isAutoCapturing initialScanner \<and>
   captureCooldown \<le> 10000 - lastCaptureTime initialScanner \<and> (8::nat) \<le> 40 \<and>
   snd (runFrames (perfectFrames 10000 8) initialScanner) = [10500] \<and>
   snd (runFrames (perfectFrames 10000 3) initialScanner) = [] \<and>
   isAutoCapturing (fst (runFrames (perfectFrames 10000 3) initialScanner)) \<and>
   perfectAlignmentTime (fst (runFrames (perfectFrames 10000 3) initialScanner)) = 10000"
proof -
  have h1: "\<not> isAutoCapturing initialScanner" by (simp add: initialScanner_def)
  have h2: "captureCooldown \<le> 10000 - lastCaptureTime initialScanner"
    by (simp add: initialScanner_def captureCooldown_def)
  have h3: "(8::nat) \<le> 40" by simp
  from debounce_fires_once_after_hold [OF h1 h2 h3] h1 h2 show ?thesis by simp
qed



text \<open>
  The bound of 40 frames is sharp: on 41 frames the debouncer, re-armed at the 36th
  frame, captures a second time.
\<close>

lemma second_capture_at_frame_41:
  "snd (runFrames (perfectFrames 10000 41) initialScanner) = [10500, 14000]"
  by (simp add: perfectFrames_def initialScanner_def handlePerfectAlignment_def
      updateStatus_def capture_def captureCooldown_def upt_rec [of _ "numeral _"] upt_rec [of 0])

text \<open>
  C2. Inside the cooldown a call of \<open>handlePerfectAlignment\<close> changes nothing and
  does not capture. Hence a full hold sequence followed by any frames that all arrive
  less than 3000 ms after its capture, a second full hold sequence among them, calls the
  capture exactly once.
\<close>

theorem cooldown_suppresses_second_capture:
  "(now - lastCaptureTime s < captureCooldown \<longrightarrow> handlePerfectAlignment now s = (s, False)) \<and>
   (\<not> isAutoCapturing s \<and> captureCooldown \<le> t0 - lastCaptureTime s \<and>
    (\<forall>f \<in> set fs. fst f - (t0 + 500) < captureCooldown) \<longrightarrow>
      snd (runFrames (perfectFrames t0 6 @ fs) s) = [t0 + 500])"
proof (intro conjI impI)
  assume "now - lastCaptureTime s < captureCooldown"
  then show "handlePerfectAlignment now s = (s, False)"
    by (simp add: handlePerfectAlignment_def)
next
  assume a: "\<not> isAutoCapturing s \<and> captureCooldown \<le> t0 - lastCaptureTime s \<and>
    (\<forall>f \<in> set fs. fst f - (t0 + 500) < captureCooldown)"
  obtain s6 f6 where r6: "runFrames (perfectFrames t0 6) s = (s6, f6)"
    by (cases "runFrames (perfectFrames t0 6) s")
  from a run_hold_and_fire [of s t0] r6
  have f6: "f6 = [t0 + 500]" and l6: "lastCaptureTime s6 = t0 + 500"
    by simp_all
  obtain s7 f7 where r7: "runFrames fs s6 = (s7, f7)"
    by (cases "runFrames fs s6")
  from a l6 have "\<forall>f \<in> set fs. fst f - lastCaptureTime s6 < captureCooldown" by simp
  from run_in_cooldown [OF this] r7 have "f7 = []" by simp
  with r6 f6 r7 show "snd (runFrames (perfectFrames t0 6 @ fs) s) = [t0 + 500]"
    by (simp add: runFrames_append)
qed

theorem cooldown_suppresses_second_capture_witness:
  "handlePerfectAlignment 1000 initialScanner = (initialScanner, False) \<and>
   snd (runFrames (perfectFrames 10000 6 @ perfectFrames 11000 6) initialScanner) = [10500]"
proof -
  have h1: "1000 - lastCaptureTime initialScanner < captureCooldown"
    by (simp add: initialScanner_def captureCooldown_def)
  have h2: "\<not> isAutoCapturing initialScanner \<and>
      captureCooldown \<le> 10000 - lastCaptureTime initialScanner \<and>
      (\<forall>f \<in> set (perfectFrames 11000 6). fst f - (10000 + 500) < captureCooldown)"
    by (auto simp: initialScanner_def captureCooldown_def dest!: perfectFrames_times)
  from cooldown_suppresses_second_capture [of 1000 initialScanner 10000 "perfectFrames 11000 6"] h1 h2
  show ?thesis by simp
qed

section \<open>Evaluating the metrics on concrete hands\<close>

lemma sqrt_eqI: "0 \<le> b \<Longrightarrow> b * b = a \<Longrightarrow> sqrt a = b"
  by (rule real_sqrt_unique) (simp_all add: power2_eq_square)

lemma less_sqrt_iff: "0 \<le> c \<Longrightarrow> c < sqrt a \<longleftrightarrow> c * c < a"
proof
  assume c: "0 \<le> c" and "c < sqrt a"
  then have "c\<^sup>2 < (sqrt a)\<^sup>2" by (intro power_strict_mono) simp_all
  moreover have "0 \<le> a" using c \<open>c < sqrt a\<close> by (smt (verit) real_sqrt_ge_0_iff)
  ultimately show "c * c < a" by (simp add: power2_eq_square)
next
  assume "0 \<le> c" and "c * c < a"
  then show "c < sqrt a" by (intro real_less_rsqrt) (simp add: power2_eq_square)
qed

lemma less_sqrt_times_iff: "0 \<le> c \<Longrightarrow> 0 < d \<Longrightarrow> c < sqrt a * d \<longleftrightarrow> c * c < a * (d * d)"
proof -
  assume c: "0 \<le> c" and d: "0 < d"
  have "c < sqrt a * d \<longleftrightarrow> c / d < sqrt a" using d by (simp add: field_simps)
  also have "\<dots> \<longleftrightarrow> (c / d) * (c / d) < a" using c d by (intro less_sqrt_iff) simp
  also have "\<dots> \<longleftrightarrow> c * c < a * (d * d)" using d by (simp add: field_simps)
  finally show ?thesis .
qed

lemma sqrt_vals:
  "sqrt (1/25) = 1/5" "sqrt (1/100) = 1/10" "sqrt (81/10000) = 9/100"
  "sqrt (9/400) = 3/20" "sqrt (1/4) = 1/2"
  by (rule sqrt_eqI; simp)+

lemmas evalhand = perfectHand_def pt_def Let_def upt_rec [of 0] upt_rec [of "Suc _"] upt_rec [of "numeral _"] 
  power2_eq_square sqrt_vals less_sqrt_iff less_sqrt_times_iff

lemma perfect_area: "calculatePalmArea perfectHand = 9/200"
  by (simp add: calculatePalmArea_def palmPoints_def evalhand)

lemma perfect_dist: "calculateDistance perfectHand = 23"
  by (simp add: calculateDistance_def perfect_area round_def)

lemma perfect_visible: "fullyVisible perfectHand"
  by (simp add: fullyVisible_def evalhand)

lemma perfect_ext: "checkFingerExtension perfectHand"
  by (simp add: checkFingerExtension_def fingerStraightness_def jsdiv_def evalhand)

lemma perfect_flat: "checkHandFlatness perfectHand"
  by (simp add: checkHandFlatness_def calculatePalmCenter_def evalhand)

lemma perfect_orient: "checkPalmOrientation None perfectHand"
  by (simp add: checkPalmOrientation_def evalhand)

lemma rotation_arguments:
  "atan2 (sz_minus (sz_times (sz_minus (plain x9) (plain x0)) (plain (- 1)))
                   (sz_times (sz_minus (plain y9) (plain y0)) (plain 0)))
         (sz_plus (sz_times (sz_minus (plain x9) (plain x0)) (plain 0))
                  (sz_times (sz_minus (plain y9) (plain y0)) (plain (- 1))))
   = atan2 (- (x9 - x0), 0 \<le> y9 - y0) (- (y9 - y0), x9 - x0 < 0)"
  by (simp add: atan2_def sz_minus_def sz_plus_def sz_times_def sz_uminus_def plain_def
      signbit_def Let_def)

lemma checkHandRotation_value:
  "checkHandRotation lm =
     (let a = atan2 (- (xc (lm ! 9) - xc (lm ! 0)), 0 \<le> yc (lm ! 9) - yc (lm ! 0))
                    (- (yc (lm ! 9) - yc (lm ! 0)), xc (lm ! 9) - xc (lm ! 0) < 0) * (180 / pi)
      in if xc (lm ! 5) > xc (lm ! 17) then - a else a)"
  by (simp add: checkHandRotation_def Let_def rotation_arguments)

lemma rotationDeg_spec_value:
  "rotationDeg_spec lm label =
     (let a = atan2 (- (xc (lm ! 9) - xc (lm ! 0)), 0 \<le> yc (lm ! 9) - yc (lm ! 0))
                    (- (yc (lm ! 9) - yc (lm ! 0)), xc (lm ! 9) - xc (lm ! 0) < 0) * (180 / pi)
      in if label = Some ''Left'' then - a else a)"
  by (simp add: rotationDeg_spec_def Let_def rotation_arguments)

lemma perfect_rot: "checkHandRotation perfectHand = 0"
  by (simp add: checkHandRotation_value atan2_def signbit_def evalhand)

lemma perfect_normal: "calculatePalmNormal_z perfectHand = Num 1"
  by (simp add: calculatePalmNormal_z_def jsdiv_def evalhand)

lemma perfect_spread: "calculateFingerSpread perfectHand = 1/5"
  by (simp add: calculateFingerSpread_def evalhand)

lemma perfect_center: "calculatePalmCenter perfectHand = \<lparr>xc = 1/2, yc = 13/20, zc = 0\<rparr>"
  by (simp add: calculatePalmCenter_def evalhand)

lemma perfect_align: "calculateAlignment perfectHand = Num (77/80)"
  unfolding calculateAlignment_def perfect_area perfect_normal perfect_spread perfect_center
  by (simp add: evalhand)

lemma perfect_classify: "classify None perfectHand = Some Perfect"
  by (simp add: classify_def perfect_dist perfect_visible perfect_ext perfect_flat perfect_orient perfect_rot perfect_align)

lemma perfect_not_oriented_left: "\<not> checkPalmOrientation (Some ''Left'') perfectHand"
  by (simp add: checkPalmOrientation_def evalhand)

lemma perfect_orient_right: "checkPalmOrientation (Some ''Right'') perfectHand"
  by (simp add: checkPalmOrientation_def evalhand)

lemma perfect_classify_right: "classify (Some ''Right'') perfectHand = Some Perfect"
  by (simp add: classify_def perfect_dist perfect_visible perfect_ext perfect_flat perfect_orient_right perfect_rot perfect_align)

lemma armedScanner_eq:
  "armedScanner = scanningScanner\<lparr>landmarkHistory := [perfectHand], palmData := Some perfectHand,
      handedness := Some ''Right'', status := (''Perfect! Hold steady'', ''success''),
      isAutoCapturing := True, perfectAlignmentTime := 10000\<rparr>"
  by (simp add: armedScanner_def onHandResults_def perfectResults_def historySize_def
      stabilizeLandmarks_def updatePalmVisualization_def perfect_classify_right
      scanningScanner_def initialScanner_def handlePerfectAlignment_def updateStatus_def
      captureCooldown_def)

section \<open>Re-validation in capture\<close>

text \<open>
  C8. With palm data and a video stream present, \<open>capture\<close> checks flatness and
  palm orientation on the current \<open>palmData\<close>. If either check fails it starts no
  capture, clears the debounce fields and reports the failure as a warning status; if both
  pass it starts exactly one capture on that landmark set.
\<close>

theorem capture_revalidates_hand_state:
  assumes "palmData s = Some pd" and "srcObject s"
  shows "(\<not> checkHandFlatness pd \<or> \<not> checkPalmOrientation (handedness s) pd \<longrightarrow>
            captureJobs (capture s) = captureJobs s \<and>
            \<not> isAutoCapturing (capture s) \<and> perfectAlignmentTime (capture s) = 0 \<and>
            status (capture s) =
              (if \<not> checkHandFlatness pd then (''Open your palm fully'', ''warning'')
               else (''Face your palm to the camera'', ''warning''))) \<and>
         (checkHandFlatness pd \<and> checkPalmOrientation (handedness s) pd \<longrightarrow>
            captureJobs (capture s) =
              captureJobs s @ [if irMode s then DualCapture pd else RegularCapture pd])"
  using assms by (simp add: capture_def updateStatus_def Let_def)

theorem capture_revalidates_hand_state_witness:
  "palmData staleScanner = Some perfectHand \<and> srcObject staleScanner \<and>
   \<not> checkPalmOrientation (handedness staleScanner) perfectHand \<and>
   captureJobs (capture staleScanner) = [] \<and>
   status (capture staleScanner) = (''Face your palm to the camera'', ''warning'')"
proof -
  have h1: "palmData staleScanner = Some perfectHand" and h2: "srcObject staleScanner"
    and h3: "handedness staleScanner = Some ''Left''" and h4: "captureJobs staleScanner = []"
    by (simp_all add: staleScanner_def scanningScanner_def initialScanner_def)
  from capture_revalidates_hand_state [OF h1 h2] h1 h2 h3 h4 perfect_not_oriented_left perfect_flat
  show ?thesis by simp
qed

section \<open>Stopping and losing the hand\<close>

text \<open>
  Neither \<open>stopScanning\<close> nor the no-hand branch of \<open>onHandResults\<close> assigns the
  debounce fields, whatever the state; \<open>stopScanning\<close> does not assign the history
  either, and \<open>startScanning\<close> assigns none of them.
\<close>

lemma stop_keeps_history_and_debouncer:
  "landmarkHistory (stopScanning s) = landmarkHistory s \<and>
   palmData (stopScanning s) = palmData s \<and>
   isAutoCapturing (stopScanning s) = isAutoCapturing s \<and>
   perfectAlignmentTime (stopScanning s) = perfectAlignmentTime s \<and>
   lastCaptureTime (stopScanning s) = lastCaptureTime s"
  by (simp add: stopScanning_def updateStatus_def)

lemma start_keeps_history_and_debouncer:
  "landmarkHistory (startScanning c g s) = landmarkHistory s \<and>
   palmData (startScanning c g s) = palmData s \<and>
   isAutoCapturing (startScanning c g s) = isAutoCapturing s \<and>
   perfectAlignmentTime (startScanning c g s) = perfectAlignmentTime s \<and>
   lastCaptureTime (startScanning c g s) = lastCaptureTime s"
  by (simp add: startScanning_def stopScanning_def updateStatus_def Let_def)

lemma hand_loss_keeps_debouncer:
  "multiHandLandmarks r = [] \<Longrightarrow>
   landmarkHistory (fst (onHandResults now r s)) = [] \<and>
   palmData (fst (onHandResults now r s)) = None \<and>
   handedness (fst (onHandResults now r s)) = None \<and>
   isAutoCapturing (fst (onHandResults now r s)) = isAutoCapturing s \<and>
   perfectAlignmentTime (fst (onHandResults now r s)) = perfectAlignmentTime s \<and>
   lastCaptureTime (fst (onHandResults now r s)) = lastCaptureTime s"
  by (simp add: onHandResults_def updateStatus_def)

text \<open>
  C5 fails on \<open>armedScanner\<close>, the state after one \<open>Perfect\<close> frame at time 10000:
  one frame of history, debouncer armed. \<open>stopScanning\<close> leaves the history and the
  armed debouncer as they are, and they are still there after \<open>startScanning\<close>: the
  first \<open>Perfect\<close> frame of the resumed session, 50 seconds later, captures at once.
  A detector result without a hand empties the history but leaves the debouncer armed
  with its old time stamp, and again the first \<open>Perfect\<close> frame of the returning hand
  captures at once, without the hold of 500 ms.
\<close>

theorem stop_and_hand_loss_leave_hold_timer_armed:
  "landmarkHistory (stopScanning armedScanner) = [perfectHand] \<and>
   isAutoCapturing (stopScanning armedScanner) \<and>
   perfectAlignmentTime (stopScanning armedScanner) = 10000 \<and>
   landmarkHistory (startScanning True True (stopScanning armedScanner)) = [perfectHand] \<and>
   isAutoCapturing (startScanning True True (stopScanning armedScanner)) \<and>
   snd (applyClassification 60000 (Some Perfect)
          (startScanning True True (stopScanning armedScanner))) \<and>
   landmarkHistory (fst (onHandResults 10100 noHandResults armedScanner)) = [] \<and>
   isAutoCapturing (fst (onHandResults 10100 noHandResults armedScanner)) \<and>
   perfectAlignmentTime (fst (onHandResults 10100 noHandResults armedScanner)) = 10000 \<and>
   snd (onHandResults 60000 perfectResults (fst (onHandResults 10100 noHandResults armedScanner)))"
  by (simp add: armedScanner_eq stopScanning_def startScanning_def noHandResults_def
      onHandResults_def perfectResults_def historySize_def updateStatus_def scanningScanner_def
      initialScanner_def stabilizeLandmarks_def updatePalmVisualization_def
      perfect_classify_right handlePerfectAlignment_def captureCooldown_def Let_def)

section \<open>The distance estimate\<close>

lemma palmArea_nonneg: "0 \<le> calculatePalmArea lm"
  by (simp add: calculatePalmArea_def Let_def)

lemma distance_branches:
  fixes lm :: landmarks
  defines "A \<equiv> calculatePalmArea lm"
  shows "(0.08 < A \<longrightarrow> calculateDistance lm = 5) \<and>
         (0.05 < A \<and> A \<le> 0.08 \<longrightarrow>
            calculateDistance lm = round (5 + (0.08 - A) * 500) \<and>
            5 \<le> calculateDistance lm \<and> calculateDistance lm \<le> 20) \<and>
         (0.01 < A \<and> A \<le> 0.05 \<longrightarrow>
            calculateDistance lm = round (20 + (0.05 - A) * 625) \<and>
            20 \<le> calculateDistance lm \<and> calculateDistance lm \<le> 45) \<and>
         (A \<le> 0.01 \<longrightarrow>
            calculateDistance lm = round (45 + (0.01 - A) * 4000) \<and>
            45 \<le> calculateDistance lm \<and> calculateDistance lm \<le> 85)"
proof -
  have A0: "0 \<le> A" unfolding A_def by (rule palmArea_nonneg)
  show ?thesis
    using A0 unfolding calculateDistance_def A_def [symmetric] Let_def
    by (auto simp: round_def le_floor_iff floor_le_iff)
qed

lemma palmOfHeight_area: "0 \<le> h \<Longrightarrow> calculatePalmArea (palmOfHeight h) = h / 5"
  by (simp add: calculatePalmArea_def palmPoints_def palmOfHeight_def evalhand algebra_simps)

lemma distance_antimono:
  assumes "calculatePalmArea a \<le> calculatePalmArea b"
  shows "calculateDistance b \<le> calculateDistance a"
proof -
  let ?A = "calculatePalmArea a" and ?B = "calculatePalmArea b"
  consider "0.08 < ?B" | "0.05 < ?B" "?B \<le> 0.08" | "0.01 < ?B" "?B \<le> 0.05" | "?B \<le> 0.01"
    by linarith
  then show ?thesis
  proof cases
    case 1
    then have "calculateDistance b = 5" using distance_branches [of b] by simp
    moreover have "5 \<le> calculateDistance a"
      using distance_branches [of a] by (cases "0.08 < ?A"; cases "0.05 < ?A"; cases "0.01 < ?A") auto
    ultimately show ?thesis by simp
  next
    case 2
    then have b: "calculateDistance b = round (5 + (0.08 - ?B) * 500)" "calculateDistance b \<le> 20"
      using distance_branches [of b] by simp_all
    consider "0.05 < ?A" | "0.01 < ?A" "?A \<le> 0.05" | "?A \<le> 0.01" by linarith
    then show ?thesis
    proof cases
      case 1
      with assms 2 have "calculateDistance a = round (5 + (0.08 - ?A) * 500)"
        using distance_branches [of a] by simp
      moreover have "round (5 + (0.08 - ?B) * 500) \<le> round (5 + (0.08 - ?A) * 500)"
        using assms by (intro round_mono) simp
      ultimately show ?thesis using b by simp
    next
      case 2
      then have "20 \<le> calculateDistance a" using distance_branches [of a] by simp
      with b show ?thesis by simp
    next
      case 3
      then have "45 \<le> calculateDistance a" using distance_branches [of a] by simp
      with b show ?thesis by simp
    qed
  next
    case 3
    then have b: "calculateDistance b = round (20 + (0.05 - ?B) * 625)" "calculateDistance b \<le> 45"
      using distance_branches [of b] by simp_all
    consider "0.01 < ?A" | "?A \<le> 0.01" by linarith
    then show ?thesis
    proof cases
      case 1
      with assms 3 have "calculateDistance a = round (20 + (0.05 - ?A) * 625)"
        using distance_branches [of a] by simp
      moreover have "round (20 + (0.05 - ?B) * 625) \<le> round (20 + (0.05 - ?A) * 625)"
        using assms by (intro round_mono) simp
      ultimately show ?thesis using b by simp
    next
      case 2
      then have "45 \<le> calculateDistance a" using distance_branches [of a] by simp
      with b show ?thesis by simp
    qed
  next
    case 4
    then have "calculateDistance b = round (45 + (0.01 - ?B) * 4000)"
      using distance_branches [of b] by simp
    moreover from 4 assms have "calculateDistance a = round (45 + (0.01 - ?A) * 4000)"
      using distance_branches [of a] by simp
    moreover have "round (45 + (0.01 - ?B) * 4000) \<le> round (45 + (0.01 - ?A) * 4000)"
      using assms by (intro round_mono) simp
    ultimately show ?thesis by simp
  qed
qed

text \<open>
  C4. The distance estimate does not increase when the palm area increases; it is 5 at
  area 0.08, 20 at area 0.05 and 45 at area 0.01; above 0.08 it is 5, and on each of
  the three other segments it is the rounded linear value, within 5-20, 20-45 and 45-85.
\<close>

theorem distance_calibration:
  assumes "length a = 21" and "length b = 21"
  shows "(calculatePalmArea a \<le> calculatePalmArea b \<longrightarrow> calculateDistance b \<le> calculateDistance a) \<and>
         (calculatePalmArea a = 0.08 \<longrightarrow> calculateDistance a = 5) \<and>
         (calculatePalmArea a = 0.05 \<longrightarrow> calculateDistance a = 20) \<and>
         (calculatePalmArea a = 0.01 \<longrightarrow> calculateDistance a = 45) \<and>
         (0.08 < calculatePalmArea a \<longrightarrow> calculateDistance a = 5) \<and>
         (0.05 < calculatePalmArea a \<and> calculatePalmArea a \<le> 0.08 \<longrightarrow>
            calculateDistance a = round (5 + (0.08 - calculatePalmArea a) * 500) \<and>
            5 \<le> calculateDistance a \<and> calculateDistance a \<le> 20) \<and>
         (0.01 < calculatePalmArea a \<and> calculatePalmArea a \<le> 0.05 \<longrightarrow>
            calculateDistance a = round (20 + (0.05 - calculatePalmArea a) * 625) \<and>
            20 \<le> calculateDistance a \<and> calculateDistance a \<le> 45) \<and>
         (calculatePalmArea a \<le> 0.01 \<longrightarrow>
            calculateDistance a = round (45 + (0.01 - calculatePalmArea a) * 4000) \<and>
            45 \<le> calculateDistance a \<and> calculateDistance a \<le> 85)"
proof -
  have "calculatePalmArea a = 0.08 \<longrightarrow> calculateDistance a = 5"
  proof
    assume e: "calculatePalmArea a = 0.08"
    show "calculateDistance a = 5" unfolding calculateDistance_def e by simp
  qed
  moreover have "calculatePalmArea a = 0.05 \<longrightarrow> calculateDistance a = 20"
  proof
    assume e: "calculatePalmArea a = 0.05"
    show "calculateDistance a = 20" unfolding calculateDistance_def e by simp
  qed
  moreover have "calculatePalmArea a = 0.01 \<longrightarrow> calculateDistance a = 45"
  proof
    assume e: "calculatePalmArea a = 0.01"
    show "calculateDistance a = 45" unfolding calculateDistance_def e by simp
  qed
  ultimately show ?thesis
    using distance_antimono [of a b] distance_branches [of a] by blast
qed

theorem distance_calibration_witness:
  "length (palmOfHeight 0.4) = 21 \<and> length (palmOfHeight 0.25) = 21 \<and>
   calculatePalmArea (palmOfHeight 0.4) = 0.08 \<and> calculateDistance (palmOfHeight 0.4) = 5 \<and>
   calculatePalmArea (palmOfHeight 0.25) = 0.05 \<and> calculateDistance (palmOfHeight 0.25) = 20 \<and>
   calculatePalmArea (palmOfHeight 0.05) = 0.01 \<and> calculateDistance (palmOfHeight 0.05) = 45 \<and>
   calculateDistance (palmOfHeight 0.4) \<le> calculateDistance (palmOfHeight 0.25)"
proof -
  have l: "length (palmOfHeight 0.4) = 21" "length (palmOfHeight 0.25) = 21"
    "length (palmOfHeight 0.05) = 21"
    by (simp_all add: palmOfHeight_def)
  have a: "calculatePalmArea (palmOfHeight 0.4) = 0.08"
    "calculatePalmArea (palmOfHeight 0.25) = 0.05"
    "calculatePalmArea (palmOfHeight 0.05) = 0.01"
    by (simp_all add: palmOfHeight_area)
  from distance_calibration [OF l(2) l(1)] distance_calibration [OF l(1) l(2)]
    distance_calibration [OF l(3) l(3)] l a
  show ?thesis by simp
qed

text \<open>
  C10. For every 21-point landmark set the distance estimate, an integer, lies between 5
  and 85, the palm area being non-negative.
\<close>

theorem distance_range:
  assumes "length lm = 21"
  shows "5 \<le> calculateDistance lm \<and> calculateDistance lm \<le> 85 \<and> 0 \<le> calculatePalmArea lm"
proof -
  let ?A = "calculatePalmArea lm"
  consider "0.08 < ?A" | "0.05 < ?A" "?A \<le> 0.08" | "0.01 < ?A" "?A \<le> 0.05" | "?A \<le> 0.01"
    by linarith
  then have "5 \<le> calculateDistance lm \<and> calculateDistance lm \<le> 85"
    using distance_branches [of lm] by cases simp_all
  then show ?thesis by (simp add: palmArea_nonneg)
qed

theorem distance_range_witness:
  "length perfectHand = 21 \<and> calculateDistance perfectHand = 23 \<and>
   5 \<le> calculateDistance perfectHand \<and> calculateDistance perfectHand \<le> 85"
proof -
  have l: "length perfectHand = 21" by (simp add: perfectHand_def)
  from distance_range [OF l] l perfect_dist show ?thesis by simp
qed


section \<open>The stabiliser on identical frames\<close>

lemma capture_keeps_history [simp]:
  "landmarkHistory (capture s) = landmarkHistory s" "palmData (capture s) = palmData s"
  by (simp_all add: capture_def updateStatus_def Let_def split: option.splits)

lemma applyClassification_keeps_history [simp]:
  "landmarkHistory (fst (applyClassification now c s)) = landmarkHistory s"
  "palmData (fst (applyClassification now c s)) = palmData s"
  by (cases "(now, c, s)" rule: applyClassification.cases;
      simp add: resetAlignment_def updateStatus_def handlePerfectAlignment_def Let_def)+

lemma onHandResults_hand_fields:
  assumes r: "multiHandLandmarks r = raw # rest"
    and H: "H = (if length (landmarkHistory s @ [raw]) > historySize
                 then tl (landmarkHistory s @ [raw]) else landmarkHistory s @ [raw])"
  shows "landmarkHistory (fst (onHandResults now r s)) = H \<and>
         palmData (fst (onHandResults now r s)) = stabilizeLandmarks H"
  unfolding onHandResults_def Let_def r list.case H [symmetric]
  by (cases "stabilizeLandmarks H"; cases "multiHandedness r";
      simp add: updatePalmVisualization_def)

text \<open>
  Rounding to a double: the rounded quotient is within one half of the exact one, a number
  whose binary exponent is known rounds on the grid of that exponent, and in the normal
  range the result is the argument times \<open>1 + d\<close> with \<open>d\<close> at most \<open>2 powr -53\<close> in
  magnitude.
\<close>

lemma round_half_even_error: "\<bar>of_int (round_half_even r) - r\<bar> \<le> 1 / 2"
proof -
  have "of_int \<lfloor>r\<rfloor> \<le> r" "r < of_int \<lfloor>r\<rfloor> + 1" by linarith+
  then show ?thesis
    by (auto simp: round_half_even_def Let_def abs_le_iff)
qed

lemma binary64_zero [simp]: "binary64 0 = 0"
  by (simp add: binary64_def)

lemma binary64_exponent:
  assumes "2 powr of_int e \<le> \<bar>v\<bar>" and "\<bar>v\<bar> < 2 powr (of_int e + 1)" and "- 1022 \<le> e"
  shows "binary64 v = of_int (round_half_even (v / 2 powr (of_int e - 52))) * 2 powr (of_int e - 52)"
proof -
  have pos: "0 < \<bar>v\<bar>" using assms(1) by (smt (verit) powr_gt_zero)
  have "\<lfloor>log 2 \<bar>v\<bar>\<rfloor> = e"
    using assms(1,2) pos by (subst floor_log_eq_powr_iff) simp_all
  with pos assms(3) show ?thesis
    by (simp add: binary64_def Let_def max_def)
qed

lemma binary64_relative:
  assumes "1 / 2 ^ 1022 \<le> \<bar>v\<bar>"
  shows "\<exists>d. \<bar>d\<bar> \<le> 1 / 2 ^ 53 \<and> binary64 v = v * (1 + d)"
proof -
  have pos: "0 < \<bar>v\<bar>" using assms by (smt (verit) divide_pos_pos zero_less_power zero_less_one)
  define e where "e = \<lfloor>log 2 \<bar>v\<bar>\<rfloor>"
  have e: "2 powr of_int e \<le> \<bar>v\<bar>" "\<bar>v\<bar> < 2 powr (of_int e + 1)"
    using floor_log_eq_powr_iff [of "\<bar>v\<bar>" 2 e] pos by (simp_all add: e_def)
  have "(2::real) powr (- 1022) = 1 / 2 ^ 1022"
    by (simp add: powr_minus powr_numeral inverse_eq_divide)
  with assms e(2) have "(2::real) powr (- 1022) < 2 powr (of_int e + 1)" by linarith
  then have "- 1022 < of_int e + (1::real)" by simp
  then have e_ge: "- 1022 \<le> e" by linarith
  define q where "q = (2::real) powr (of_int e - 52)"
  have q: "0 < q" by (simp add: q_def)
  have b: "binary64 v = of_int (round_half_even (v / q)) * q"
    unfolding q_def by (rule binary64_exponent [OF e e_ge])
  have "binary64 v - v = q * (of_int (round_half_even (v / q)) - v / q)"
    using q by (simp add: b field_simps)
  then have "\<bar>binary64 v - v\<bar> = q * \<bar>of_int (round_half_even (v / q)) - v / q\<bar>"
    using q by (simp add: abs_mult)
  also have "\<dots> \<le> q * (1 / 2)"
    using q round_half_even_error [of "v / q"] by (intro mult_left_mono) simp_all
  also have "q * (1 / 2) = 2 powr of_int e / 2 ^ 53"
  proof -
    have "q = 2 powr of_int e * 2 powr (- 52)" unfolding q_def by (simp add: powr_diff powr_minus inverse_eq_divide)
    also have "(2::real) powr (- 52) = 1 / 2 ^ 52" by (simp add: powr_minus inverse_eq_divide)
    finally show ?thesis by simp
  qed
  also have "\<dots> \<le> \<bar>v\<bar> / 2 ^ 53" using e(1) by (simp add: divide_right_mono)
  finally have err: "\<bar>binary64 v - v\<bar> \<le> \<bar>v\<bar> / 2 ^ 53" .
  define d where "d = (binary64 v - v) / v"
  have v0: "v \<noteq> 0" using pos by auto
  have "\<bar>d\<bar> = \<bar>binary64 v - v\<bar> / \<bar>v\<bar>" by (simp add: d_def)
  also have "\<dots> \<le> (\<bar>v\<bar> / 2 ^ 53) / \<bar>v\<bar>" using err pos by (intro divide_right_mono) simp_all
  also have "\<dots> = 1 / 2 ^ 53" using pos by simp
  finally have "\<bar>d\<bar> \<le> 1 / 2 ^ 53" .
  moreover have "binary64 v = v * (1 + d)" using v0 by (simp add: d_def field_simps)
  ultimately show ?thesis by blast
qed

lemma binary64_scaled:
  assumes "1 / 2 ^ k \<le> \<bar>v\<bar>" and "\<bar>v\<bar> < 2 / 2 ^ k" and "k \<le> 1022"
  shows "binary64 v = of_int (round_half_even (v * 2 ^ (52 + k))) / 2 ^ (52 + k)"
proof -
  have p: "(2::real) powr of_int (- int k) = 1 / 2 ^ k"
    by (simp add: powr_minus powr_realpow inverse_eq_divide)
  have "(2::real) powr (of_int (- int k) + 1) = 2 powr of_int (- int k) * 2 powr 1"
    by (rule powr_add)
  then have p1: "(2::real) powr (of_int (- int k) + 1) = 2 / 2 ^ k"
    unfolding p by simp
  have "(2::real) powr (of_int (- int k) - 52) = 2 powr of_int (- int k) / 2 powr 52"
    by (rule powr_diff)
  then have q: "(2::real) powr (of_int (- int k) - 52) = 1 / 2 ^ (52 + k)"
    unfolding p by (simp add: power_add)
  have a1: "2 powr of_int (- int k) \<le> \<bar>v\<bar>" unfolding p by (rule assms(1))
  have a2: "\<bar>v\<bar> < 2 powr (of_int (- int k) + 1)" unfolding p1 by (rule assms(2))
  have a3: "- 1022 \<le> - int k" using assms(3) by simp
  have "binary64 v = of_int (round_half_even (v / 2 powr (of_int (- int k) - 52))) * 2 powr (of_int (- int k) - 52)"
    by (rule binary64_exponent [OF a1 a2 a3])
  then show ?thesis by (simp only: q) simp
qed

text \<open>
  The double of the literal \<open>0.8\<close>, and what the stabiliser's arithmetic makes of two
  copies of it: the sum \<open>0.4 + 0.8\<close> is a tie and rounds to the even neighbour, and
  the quotient by \<open>1.5\<close> lands one unit in the last place above the input.
\<close>

lemma double_of_0_8: "binary64 (4 / 5) = 3602879701896397 / 4503599627370496"
  using binary64_scaled [of 1 "4 / 5"] by (simp add: round_half_even_def Let_def)

lemma two_frames_of_0_8:
  defines "Y \<equiv> 3602879701896397 / 4503599627370496 :: real"
  shows "binary64 (binary64 (binary64 (0 + binary64 (Y * binary64 ((0 + 1) / 2)))
                             + binary64 (Y * binary64 ((1 + 1) / 2)))
                   / binary64 (binary64 (0 + binary64 ((0 + 1) / 2)) + binary64 ((1 + 1) / 2)))
         = 7205759403792795 / 9007199254740992"
proof -
  have w0: "binary64 ((0 + 1) / 2) = 1 / 2"
    using binary64_scaled [of 1 "1 / 2"] by (simp add: round_half_even_def Let_def)
  have w1: "binary64 ((1 + 1) / 2) = 1"
    using binary64_scaled [of 0 1] by (simp add: round_half_even_def Let_def)
  have p0: "binary64 (Y * (1 / 2)) = Y / 2"
    unfolding Y_def using binary64_scaled [of 2 "3602879701896397 / 4503599627370496 * (1 / 2)"]
    by (simp add: round_half_even_def Let_def)
  have s1: "binary64 (0 + Y / 2) = Y / 2"
    using p0 by simp
  have p1: "binary64 (Y * 1) = Y"
    unfolding Y_def using binary64_scaled [of 1 "3602879701896397 / 4503599627370496"]
    by (simp add: round_half_even_def Let_def)
  have s2: "binary64 (Y / 2 + Y) = 5404319552844596 / 4503599627370496"
    unfolding Y_def
    using binary64_scaled [of 0 "3602879701896397 / 4503599627370496 / 2 + 3602879701896397 / 4503599627370496"]
    by (simp add: round_half_even_def Let_def)
  have W1: "binary64 (0 + 1 / 2) = 1 / 2"
    using w0 by simp
  have W2: "binary64 (1 / 2 + 1) = 3 / 2"
    using binary64_scaled [of 0 "3 / 2"] by (simp add: round_half_even_def Let_def)
  have out: "binary64 (5404319552844596 / 4503599627370496 / (3 / 2)) = 7205759403792795 / 9007199254740992"
    using binary64_scaled [of 1 "5404319552844596 / 4503599627370496 / (3 / 2)"]
    by (simp add: round_half_even_def Let_def)
  show ?thesis
    unfolding w0 w1 p0 s1 p1 s2 W1 W2 out ..
qed

lemma fold_components:
  "fold (\<lambda>k (sx, sy, sz, wt). (fx k sx, fy k sy, fz k sz, fw k wt)) ks (a, b, c, d)
   = (fold fx ks a, fold fy ks b, fold fz ks c, fold fw ks d)"
  by (induction ks arbitrary: a b c d) simp_all

lemma stabilizePoint_components:
  "stabilizePoint history i =
     \<lparr>xc = binary64 (weightedSum (length history) (\<lambda>k. xc (history ! k ! i)) / weightSum (length history)),
      yc = binary64 (weightedSum (length history) (\<lambda>k. yc (history ! k ! i)) / weightSum (length history)),
      zc = binary64 (weightedSum (length history) (\<lambda>k. zc (history ! k ! i)) / weightSum (length history))\<rparr>"
  by (simp add: stabilizePoint_def Let_def fold_components weightedSum_def weightSum_def weightOf_def)

lemma literal_wrist_y: "yc (literalHand ! 0) = 3602879701896397 / 4503599627370496"
  by (simp add: literalHand_def pt64_def double_of_0_8)

lemma two_literal_frames_wrist_y:
  "yc (stabilizePoint [literalHand, literalHand] 0) = 7205759403792795 / 9007199254740992"
proof -
  have "yc (stabilizePoint [literalHand, literalHand] 0) =
        binary64 (binary64 (binary64 (0 + binary64 (yc (literalHand ! 0) * binary64 ((0 + 1) / 2)))
                             + binary64 (yc (literalHand ! 0) * binary64 ((1 + 1) / 2)))
                   / binary64 (binary64 (0 + binary64 ((0 + 1) / 2)) + binary64 ((1 + 1) / 2)))"
    by (simp add: stabilizePoint_components weightedSum_def weightSum_def weightOf_def
        upt_rec [of 0] upt_rec [of "Suc _"] del: binary64_zero)
  then show ?thesis
    unfolding literal_wrist_y by (simp only: two_frames_of_0_8)
qed

text \<open>
  Error analysis. Each step of a running sum multiplies the exact sum by factors between
  \<open>c = 1 - 2 powr -53\<close> and \<open>g = 1 + 2 powr -53\<close>; after \<open>n\<close> frames the sum is the
  value times a factor between \<open>c ^ (2 * n)\<close> and \<open>g ^ (2 * n)\<close> times the exact sum
  of the weights, and the same holds for the sum of the weights.
\<close>

lemma accumulate_step_lower:
  fixes a c T wk A B d1 d2 :: real
  assumes c: "0 \<le> c" "c \<le> 1" and a: "0 \<le> a" "a \<le> 1" and T: "0 \<le> T" and wk: "0 \<le> wk"
    and A: "a * T \<le> A" and d1: "c \<le> 1 + d1" and d2: "c \<le> 1 + d2"
  shows "a * c * c * (T + wk) \<le> (A + wk * (1 + d1)) * (1 + d2)"
proof -
  have 1: "a * c * c * T \<le> a * c * T"
    using c a T by (intro mult_right_mono mult_left_le) simp_all
  have 2: "a * c * c * wk \<le> c * c * wk"
    using c a wk by (intro mult_right_mono) (simp_all add: mult_left_le_one_le)
  have B: "a * T + wk * c \<le> A + wk * (1 + d1)"
    using A d1 wk by (intro add_mono mult_left_mono) simp_all
  have B0: "0 \<le> a * T + wk * c" using a T wk c by simp
  have "a * c * c * (T + wk) \<le> (a * T + wk * c) * c"
    using 1 2 by (simp add: algebra_simps)
  also have "\<dots> \<le> (A + wk * (1 + d1)) * c"
    using B c by (intro mult_right_mono) simp_all
  also have "\<dots> \<le> (A + wk * (1 + d1)) * (1 + d2)"
    using B B0 d2 by (intro mult_left_mono) simp_all
  finally show ?thesis .
qed

lemma accumulate_step_upper:
  fixes b g T wk A d1 d2 :: real
  assumes g: "1 \<le> g" and b: "1 \<le> b" and T: "0 \<le> T" and wk: "0 \<le> wk"
    and A0: "0 \<le> A" and A: "A \<le> b * T" and d1: "0 \<le> 1 + d1" "1 + d1 \<le> g"
    and d2: "0 \<le> 1 + d2" "1 + d2 \<le> g"
  shows "(A + wk * (1 + d1)) * (1 + d2) \<le> b * g * g * (T + wk)"
proof -
  have 3: "b * g * T \<le> b * g * g * T"
    using g b T by (intro mult_right_mono) simp_all
  have 4: "g * g * wk \<le> b * g * g * wk"
    using g b wk by (intro mult_right_mono) simp_all
  have B: "A + wk * (1 + d1) \<le> b * T + wk * g"
    using A d1 wk by (intro add_mono mult_left_mono) simp_all
  have B0: "0 \<le> A + wk * (1 + d1)" using A0 wk d1 by simp
  have "(A + wk * (1 + d1)) * (1 + d2) \<le> (A + wk * (1 + d1)) * g"
    using B0 d2 by (intro mult_left_mono) simp_all
  also have "\<dots> \<le> (b * T + wk * g) * g"
    using B g by (intro mult_right_mono) simp_all
  also have "\<dots> \<le> b * g * g * (T + wk)"
    using 3 4 by (simp add: algebra_simps)
  finally show ?thesis .
qed

lemma accumulate_bounds:
  fixes v c g :: real and w p :: "nat \<Rightarrow> real"
  assumes cdef: "c = 1 - 1 / 2 ^ 53" and gdef: "g = 1 + 1 / 2 ^ 53"
    and v: "1 / 2 ^ 1000 \<le> \<bar>v\<bar>"
    and ks: "\<forall>k \<in> set ks. 1 / 8 \<le> w k \<and> (\<exists>d. \<bar>d\<bar> \<le> 1 / 2 ^ 53 \<and> p k = v * (w k * (1 + d)))"
    and T: "0 \<le> T"
    and lo: "c ^ (2 * m) * T \<le> A"
    and hi: "A \<le> g ^ (2 * m) * T"
  shows "\<exists>A'. fold (\<lambda>k s. binary64 (s + p k)) ks (v * A) = v * A' \<and>
           c ^ (2 * (m + length ks)) * (T + sum_list (map w ks)) \<le> A' \<and>
           A' \<le> g ^ (2 * (m + length ks)) * (T + sum_list (map w ks))"
  using ks T lo hi
proof (induction ks arbitrary: A T m)
  case Nil
  then show ?case by auto
next
  case (Cons k ks)
  have c: "0 \<le> c" "c \<le> 1" and g: "1 \<le> g" and c2: "1 / 2 \<le> c"
    by (simp_all add: cdef gdef)
  from Cons.prems(1) obtain d1 where wk: "1 / 8 \<le> w k" and d1: "\<bar>d1\<bar> \<le> 1 / 2 ^ 53"
    and pk: "p k = v * (w k * (1 + d1))"
    by auto
  have a: "0 \<le> c ^ (2 * m)" "c ^ (2 * m) \<le> 1"
    using c by (simp_all add: power_le_one)
  have b: "1 \<le> g ^ (2 * m)" using g by (rule one_le_power)
  have A0: "0 \<le> A" using Cons.prems(2,3) a(1) by (smt (verit) mult_nonneg_nonneg)
  define B where "B = A + w k * (1 + d1)"
  have d1': "c \<le> 1 + d1" "1 + d1 \<le> g" "0 \<le> 1 + d1"
    using d1 unfolding cdef gdef by (simp_all add: abs_le_iff)
  have "w k * c \<le> w k * (1 + d1)" using wk d1'(1) by (intro mult_left_mono) simp_all
  moreover have "1 / 8 * (1 / 2) \<le> w k * c"
    using wk c2 by (intro mult_mono) simp_all
  ultimately have B16: "1 / 16 \<le> B" unfolding B_def using A0 by linarith
  have x: "v * A + p k = v * B" by (simp add: pk B_def algebra_simps)
  have "1 / 2 ^ 1022 \<le> (1 / 2 ^ 1000) * (1 / 16 :: real)" by simp
  also have "\<dots> \<le> \<bar>v\<bar> * B" using v B16 by (intro mult_mono) simp_all
  finally have "1 / 2 ^ 1022 \<le> \<bar>v * B\<bar>" using B16 by (simp add: abs_mult)
  from binary64_relative [OF this] obtain d2 where d2: "\<bar>d2\<bar> \<le> 1 / 2 ^ 53"
    and r: "binary64 (v * B) = v * B * (1 + d2)"
    by blast
  have d2': "c \<le> 1 + d2" "1 + d2 \<le> g" "0 \<le> 1 + d2"
    using d2 unfolding cdef gdef by (simp_all add: abs_le_iff)
  define A' where "A' = B * (1 + d2)"
  have step: "binary64 (v * A + p k) = v * A'" by (simp add: x r A'_def)
  have wk0: "0 \<le> w k" using wk by simp
  have T': "0 \<le> T + w k" using Cons.prems(2) wk0 by simp
  have pc: "c ^ (2 * Suc m) = c ^ (2 * m) * c * c" and pg: "g ^ (2 * Suc m) = g ^ (2 * m) * g * g"
    by simp_all
  have "c ^ (2 * m) * c * c * (T + w k) \<le> (A + w k * (1 + d1)) * (1 + d2)"
    using c a Cons.prems(2) wk0 Cons.prems(3) d1'(1) d2'(1) by (rule accumulate_step_lower)
  then have lo': "c ^ (2 * Suc m) * (T + w k) \<le> A'"
    unfolding pc A'_def B_def .
  have "(A + w k * (1 + d1)) * (1 + d2) \<le> g ^ (2 * m) * g * g * (T + w k)"
    using g b Cons.prems(2) wk0 A0 Cons.prems(4) d1'(3) d1'(2) d2'(3) d2'(2)
    by (rule accumulate_step_upper)
  then have hi': "A' \<le> g ^ (2 * Suc m) * (T + w k)"
    unfolding pg A'_def B_def .
  have ks': "\<forall>k \<in> set ks. 1 / 8 \<le> w k \<and> (\<exists>d. \<bar>d\<bar> \<le> 1 / 2 ^ 53 \<and> p k = v * (w k * (1 + d)))"
    using Cons.prems(1) by simp
  from Cons.IH [OF ks' T' lo' hi'] obtain A'' where
    "fold (\<lambda>k s. binary64 (s + p k)) ks (v * A') = v * A''"
    "c ^ (2 * (Suc m + length ks)) * (T + w k + sum_list (map w ks)) \<le> A''"
    "A'' \<le> g ^ (2 * (Suc m + length ks)) * (T + w k + sum_list (map w ks))"
    by blast
  then show ?case
    by (intro exI [of _ A'']) (simp add: step add.assoc)
qed

lemma rounding_constants:
  "(1 + 1 / 2 ^ 53) ^ 11 \<le> (1 + 1 / 2 ^ 48) * (1 - 1 / 2 ^ 53 :: real) ^ 10"
  "(1 - 1 / 2 ^ 48) * (1 + 1 / 2 ^ 53) ^ 10 \<le> (1 - 1 / 2 ^ 53 :: real) ^ 11"
  "1 / 2 \<le> (1 - 1 / 2 ^ 53 :: real) ^ 10"
  "(1 + 1 / 2 ^ 53 :: real) ^ 10 \<le> 2"
  by (simp_all add: power_divide)

lemma weightOf_ge:
  assumes "k < n" and "n \<le> 5"
  shows "1 / 8 \<le> weightOf n k"
proof -
  let ?x = "(real k + 1) / real n"
  have n0: "0 < real n" using assms by simp
  have "real n \<le> 5" using assms by simp
  then have "1 / 5 * real n \<le> 1" by simp
  also have "\<dots> \<le> real k + 1" by simp
  finally have x: "1 / 5 \<le> ?x" using n0 by (simp add: pos_le_divide_eq)
  have "(1::real) / 2 ^ 1022 \<le> 1 / 5" by simp
  with x have "1 / 2 ^ 1022 \<le> \<bar>?x\<bar>" by linarith
  from binary64_relative [OF this] obtain d where d: "\<bar>d\<bar> \<le> 1 / 2 ^ 53"
    and b: "binary64 ?x = ?x * (1 + d)"
    by blast
  have "5 / 8 \<le> 1 + d" using d by (simp add: abs_le_iff)
  then have "1 / 5 * (5 / 8) \<le> ?x * (1 + d)" using x by (intro mult_mono) simp_all
  then show ?thesis unfolding weightOf_def b by simp
qed

lemma sum_list_weights_pos:
  assumes "\<forall>k \<in> set ks. 1 / 8 \<le> (w k :: real)" and "ks \<noteq> []"
  shows "1 / 8 \<le> sum_list (map w ks)"
proof -
  have nonneg: "0 \<le> sum_list (map w ks')" if "\<forall>k \<in> set ks'. 1 / 8 \<le> w k" for ks'
    using that by (induction ks') (auto intro: add_nonneg_nonneg)
  from assms obtain k ks' where ks: "ks = k # ks'" by (cases ks) auto
  with assms(1) have "1 / 8 \<le> w k" "0 \<le> sum_list (map w ks')"
    using nonneg [of ks'] by simp_all
  then show ?thesis by (simp add: ks)
qed

lemma weightedSum_cong:
  assumes "\<forall>k < n. val k = val' k"
  shows "weightedSum n val = weightedSum n val'"
  unfolding weightedSum_def using assms by (intro fold_cong) auto

lemma weightedSum_zero: "weightedSum n (\<lambda>k. 0) = 0"
proof -
  have "fold (\<lambda>k s. binary64 (s + binary64 (0 * weightOf n k))) ks 0 = 0" for ks
    by (induction ks) simp_all
  then show ?thesis by (simp add: weightedSum_def)
qed

lemma ratio_bounds:
  fixes A AW T c g lo hi d :: real
  assumes T: "0 < T" and lo: "0 < lo" and hi: "lo \<le> hi"
    and A: "lo * T \<le> A" "A \<le> hi * T" and AW: "lo * T \<le> AW" "AW \<le> hi * T"
    and d: "c \<le> 1 + d" "1 + d \<le> g" and c: "0 \<le> c"
  shows "lo * c / hi \<le> A / AW * (1 + d)" and "A / AW * (1 + d) \<le> hi * g / lo"
    and "lo / hi \<le> A / AW"
proof -
  have loT: "0 < lo * T" using T lo by simp
  have hiT: "0 < hi * T" using T lo hi by (intro mult_pos_pos) simp_all
  have A0: "0 < A" and AW0: "0 < AW" using loT A(1) AW(1) by linarith+
  have "lo / hi = lo * T / (hi * T)" using T by simp
  also have "\<dots> \<le> A / AW"
    using A(1) AW(2) AW0 loT by (intro frac_le) simp_all
  finally show r1: "lo / hi \<le> A / AW" .
  have "A / AW \<le> hi * T / (lo * T)"
    using A(2) AW(1) A0 loT by (intro frac_le) simp_all
  also have "\<dots> = hi / lo" using T by simp
  finally have r2: "A / AW \<le> hi / lo" .
  have r0: "0 \<le> A / AW" using A0 AW0 by simp
  have "lo * c / hi = lo / hi * c" by simp
  also have "\<dots> \<le> A / AW * (1 + d)"
    using r1 d(1) c r0 by (intro mult_mono) simp_all
  finally show "lo * c / hi \<le> A / AW * (1 + d)" .
  have d0: "0 \<le> 1 + d" using d(1) c by simp
  have "A / AW * (1 + d) \<le> hi / lo * g"
    using r2 d(2) d0 r0 by (intro mult_mono) simp_all
  then show "A / AW * (1 + d) \<le> hi * g / lo" by simp
qed

lemma identical_coordinate_close:
  assumes n: "0 < n" "n \<le> 5" and vr: "inRange v" and val: "\<forall>k < n. val k = v"
  shows "close (binary64 (weightedSum n val / weightSum n)) v"
proof (cases "v = 0")
  case True
  with val have "weightedSum n val = weightedSum n (\<lambda>k. 0)"
    by (intro weightedSum_cong) simp
  then show ?thesis using True by (simp add: weightedSum_zero close_def)
next
  case False
  with vr have v: "1 / 2 ^ 1000 \<le> \<bar>v\<bar>" by (simp add: inRange_def)
  define c :: real where "c = 1 - 1 / 2 ^ 53"
  define g :: real where "g = 1 + 1 / 2 ^ 53"
  define ks where "ks = [0..<n]"
  define T where "T = sum_list (map (weightOf n) ks)"
  have c: "0 \<le> c" "c \<le> 1" and g: "1 \<le> g" by (simp_all add: c_def g_def)
  have N1: "g ^ 11 \<le> (1 + 1 / 2 ^ 48) * c ^ 10" unfolding c_def g_def by (rule rounding_constants(1))
  have N2: "(1 - 1 / 2 ^ 48) * g ^ 10 \<le> c ^ 11" unfolding c_def g_def by (rule rounding_constants(2))
  have N3: "1 / 2 \<le> c ^ 10" unfolding c_def by (rule rounding_constants(3))
  have N4: "g ^ 10 \<le> 2" unfolding g_def by (rule rounding_constants(4))
  have w: "\<forall>k \<in> set ks. 1 / 8 \<le> weightOf n k"
  proof
    fix k assume "k \<in> set ks"
    then have "k < n" by (simp add: ks_def)
    then show "1 / 8 \<le> weightOf n k" using n(2) by (rule weightOf_ge)
  qed
  have ks_ne: "ks \<noteq> []" using n by (simp add: ks_def)
  have T: "0 < T" using sum_list_weights_pos [OF w ks_ne] by (simp add: T_def)
  have len: "length ks = n" by (simp add: ks_def)
  \<comment> \<open>the coordinate sum\<close>
  have pv: "\<forall>k \<in> set ks. 1 / 8 \<le> weightOf n k \<and>
              (\<exists>d. \<bar>d\<bar> \<le> 1 / 2 ^ 53 \<and> binary64 (v * weightOf n k) = v * (weightOf n k * (1 + d)))"
  proof
    fix k assume k: "k \<in> set ks"
    with w have wk: "1 / 8 \<le> weightOf n k" by simp
    have "1 / 2 ^ 1022 \<le> (1 / 2 ^ 1000) * (1 / 8 :: real)" by simp
    also have "\<dots> \<le> \<bar>v\<bar> * weightOf n k" using v wk by (intro mult_mono) simp_all
    finally have "1 / 2 ^ 1022 \<le> \<bar>v * weightOf n k\<bar>" using wk by (simp add: abs_mult)
    from binary64_relative [OF this] obtain d where "\<bar>d\<bar> \<le> 1 / 2 ^ 53"
      "binary64 (v * weightOf n k) = v * weightOf n k * (1 + d)"
      by blast
    with wk show "1 / 8 \<le> weightOf n k \<and>
              (\<exists>d. \<bar>d\<bar> \<le> 1 / 2 ^ 53 \<and> binary64 (v * weightOf n k) = v * (weightOf n k * (1 + d)))"
      by (auto simp: mult.assoc)
  qed
  have "\<exists>A'. fold (\<lambda>k s. binary64 (s + binary64 (v * weightOf n k))) ks (v * 0) = v * A' \<and>
           c ^ (2 * (0 + length ks)) * (0 + sum_list (map (weightOf n) ks)) \<le> A' \<and>
           A' \<le> g ^ (2 * (0 + length ks)) * (0 + sum_list (map (weightOf n) ks))"
    by (rule accumulate_bounds [OF c_def g_def v pv]) simp_all
  then obtain A where sA: "fold (\<lambda>k s. binary64 (s + binary64 (v * weightOf n k))) ks 0 = v * A"
    and A: "c ^ (2 * n) * T \<le> A" "A \<le> g ^ (2 * n) * T"
    by (auto simp: len T_def)
  have "weightedSum n val = weightedSum n (\<lambda>k. v)"
    using val by (intro weightedSum_cong) simp
  then have ws: "weightedSum n val = v * A"
    using sA by (simp add: weightedSum_def ks_def)
  \<comment> \<open>the sum of the weights\<close>
  have pw: "\<forall>k \<in> set ks. 1 / 8 \<le> weightOf n k \<and>
              (\<exists>d. \<bar>d\<bar> \<le> 1 / 2 ^ 53 \<and> weightOf n k = 1 * (weightOf n k * (1 + d)))"
    using w by (auto intro!: exI [of _ 0])
  have one: "1 / 2 ^ 1000 \<le> \<bar>1 :: real\<bar>" by simp
  have "\<exists>A'. fold (\<lambda>k s. binary64 (s + weightOf n k)) ks (1 * 0) = 1 * A' \<and>
           c ^ (2 * (0 + length ks)) * (0 + sum_list (map (weightOf n) ks)) \<le> A' \<and>
           A' \<le> g ^ (2 * (0 + length ks)) * (0 + sum_list (map (weightOf n) ks))"
    by (rule accumulate_bounds [OF c_def g_def one pw]) simp_all
  then obtain AW where sW: "fold (\<lambda>k s. binary64 (s + weightOf n k)) ks 0 = AW"
    and AW: "c ^ (2 * n) * T \<le> AW" "AW \<le> g ^ (2 * n) * T"
    by (auto simp: len T_def)
  have wsum: "weightSum n = AW" using sW by (simp add: weightSum_def ks_def)
  \<comment> \<open>exponents up to 10\<close>
  have "c ^ 10 \<le> c ^ (2 * n)" using c n by (intro power_decreasing) simp_all
  moreover have "g ^ (2 * n) \<le> g ^ 10" using g n by (intro power_increasing) simp_all
  ultimately have A10: "c ^ 10 * T \<le> A" "A \<le> g ^ 10 * T"
    and AW10: "c ^ 10 * T \<le> AW" "AW \<le> g ^ 10 * T"
    using A AW T
    by (meson less_eq_real_def mult_right_mono order_trans)+
  have lo: "0 < c ^ 10" using N3 by linarith
  have lohi: "c ^ 10 \<le> g ^ 10" using N3 c g
    by (meson one_le_power order_trans power_le_one)
  \<comment> \<open>the quotient\<close>
  define r where "r = A / AW"
  have r_lo: "c ^ 10 / g ^ 10 \<le> r" unfolding r_def
    using T lo lohi A10 AW10 by (rule ratio_bounds(3) [where c = c and g = g and d = 0]) (simp_all add: c g)
  have "1 / 4 \<le> c ^ 10 / g ^ 10"
  proof -
    have "1 / 4 = (1 / 2) / (2 :: real)" by simp
    also have "\<dots> \<le> c ^ 10 / g ^ 10" using N3 N4 g by (intro frac_le) simp_all
    finally show ?thesis .
  qed
  with r_lo have r4: "1 / 4 \<le> r" by linarith
  have x: "weightedSum n val / weightSum n = v * r" by (simp add: ws wsum r_def)
  have "1 / 2 ^ 1022 \<le> (1 / 2 ^ 1000) * (1 / 4 :: real)" by simp
  also have "\<dots> \<le> \<bar>v\<bar> * r" using v r4 by (intro mult_mono) simp_all
  finally have "1 / 2 ^ 1022 \<le> \<bar>v * r\<bar>" using r4 by (simp add: abs_mult)
  from binary64_relative [OF this] obtain d where d: "\<bar>d\<bar> \<le> 1 / 2 ^ 53"
    and b: "binary64 (v * r) = v * r * (1 + d)"
    by blast
  have d': "c \<le> 1 + d" "1 + d \<le> g" using d unfolding c_def g_def by (simp_all add: abs_le_iff)
  have R_lo: "c ^ 10 * c / g ^ 10 \<le> r * (1 + d)" unfolding r_def
    using T lo lohi A10 AW10 d' c(1) by (rule ratio_bounds(1))
  have R_hi: "r * (1 + d) \<le> g ^ 10 * g / c ^ 10" unfolding r_def
    using T lo lohi A10 AW10 d' c(1) by (rule ratio_bounds(2))
  have g10: "0 < g ^ 10" using g by (smt (verit) zero_less_power)
  have e11: "y ^ 11 = y ^ 10 * y" for y :: real
    using power_add [of y 10 1] by simp
  have "1 - 1 / 2 ^ 48 \<le> c ^ 11 / g ^ 10"
    using N2 g10 by (simp add: pos_le_divide_eq)
  also have "c ^ 11 / g ^ 10 = c ^ 10 * c / g ^ 10" by (simp only: e11)
  finally have lower: "1 - 1 / 2 ^ 48 \<le> r * (1 + d)" using R_lo by linarith
  have "g ^ 10 * g / c ^ 10 = g ^ 11 / c ^ 10" by (simp only: e11)
  also have "\<dots> \<le> 1 + 1 / 2 ^ 48"
    using N1 lo by (simp add: pos_divide_le_eq)
  finally have upper: "r * (1 + d) \<le> 1 + 1 / 2 ^ 48" using R_hi by linarith
  have "\<bar>r * (1 + d) - 1\<bar> \<le> 1 / 2 ^ 48" using lower upper by linarith
  then have "\<bar>v\<bar> * \<bar>r * (1 + d) - 1\<bar> \<le> \<bar>v\<bar> * (1 / 2 ^ 48)"
    by (intro mult_left_mono) simp_all
  moreover have "binary64 (v * r) - v = v * (r * (1 + d) - 1)"
    unfolding b by (simp add: algebra_simps)
  ultimately have "\<bar>binary64 (v * r) - v\<bar> \<le> \<bar>v\<bar> / 2 ^ 48"
    by (simp add: abs_mult)
  then show ?thesis by (simp add: close_def x)
qed

lemma close_refl: "close v v"
  by (simp add: close_def)

lemma stabilizePoint_identical_close:
  assumes n: "0 < n" "n \<le> 5" and r: "inRangePoint (lm ! i)"
  shows "closePoint (stabilizePoint (replicate n lm) i) (lm ! i)"
proof -
  have "close (binary64 (weightedSum n (\<lambda>k. f (replicate n lm ! k ! i)) / weightSum n)) (f (lm ! i))"
    if "inRange (f (lm ! i))" for f :: "landmark \<Rightarrow> real"
    using n that by (intro identical_coordinate_close) simp_all
  from this [of xc] this [of yc] this [of zc] r show ?thesis
    by (simp add: closePoint_def inRangePoint_def stabilizePoint_components)
qed

lemma stabilizeLandmarks_identical_close:
  assumes lm: "length lm = 21" and n: "0 < n" "n \<le> 5" and r: "list_all inRangePoint lm"
  shows "\<exists>out. stabilizeLandmarks (replicate n lm) = Some out \<and> list_all2 closePoint out lm"
proof (cases "n = 1")
  case True
  have "list_all2 closePoint lm lm"
    by (simp add: list_all2_conv_all_nth closePoint_def close_refl)
  with True show ?thesis by (simp add: stabilizeLandmarks_def)
next
  case False
  let ?out = "map (stabilizePoint (replicate n lm)) [0..<21]"
  have "closePoint (?out ! i) (lm ! i)" if "i < 21" for i
  proof -
    from that lm r have "inRangePoint (lm ! i)" by (simp add: list_all_length)
    from stabilizePoint_identical_close [OF n this] that show ?thesis
      by (simp del: upt_Suc)
  qed
  then have "list_all2 closePoint ?out lm"
    using lm by (simp add: list_all2_conv_all_nth del: upt_Suc)
  with False n show ?thesis by (auto simp: stabilizeLandmarks_def simp del: upt_Suc)
qed

lemma feedFrames_identical_history:
  assumes h: "landmarkHistory s = replicate k lm" and k: "k \<le> 5"
    and fs: "\<forall>f \<in> set fs. \<exists>rest. multiHandLandmarks (snd f) = lm # rest"
  shows "landmarkHistory (feedFrames fs s) = replicate (min (k + length fs) 5) lm \<and>
         (fs \<noteq> [] \<longrightarrow>
            palmData (feedFrames fs s) = stabilizeLandmarks (replicate (min (k + length fs) 5) lm))"
  using h k fs
proof (induction fs arbitrary: s k)
  case Nil
  then show ?case by simp
next
  case (Cons f fs)
  obtain now r where f: "f = (now, r)" by (cases f)
  from Cons.prems f obtain rest where r: "multiHandLandmarks r = lm # rest" by auto
  let ?s' = "fst (onHandResults now r s)"
  let ?pushed = "landmarkHistory s @ [lm]"
  have p: "?pushed = replicate (Suc k) lm"
    using Cons.prems(1) by (simp add: replicate_append_same)
  have hist: "replicate (min (Suc k) 5) lm =
                (if length ?pushed > historySize then tl ?pushed else ?pushed)"
  proof (cases "k = 5")
    case True
    then show ?thesis unfolding p by (simp add: historySize_def)
  next
    case False
    with Cons.prems(2) have "Suc k \<le> 5" by simp
    then show ?thesis unfolding p by (simp add: historySize_def min_def)
  qed
  from onHandResults_hand_fields [OF r hist, of now]
  have h': "landmarkHistory ?s' = replicate (min (Suc k) 5) lm"
    and p': "palmData ?s' = stabilizeLandmarks (replicate (min (Suc k) 5) lm)"
    by simp_all
  have fs': "\<forall>f \<in> set fs. \<exists>rest. multiHandLandmarks (snd f) = lm # rest"
    using Cons.prems by simp
  from Cons.IH [OF h' _ fs']
  have ih: "landmarkHistory (feedFrames fs ?s') = replicate (min (min (Suc k) 5 + length fs) 5) lm"
    "fs \<noteq> [] \<longrightarrow> palmData (feedFrames fs ?s') =
       stabilizeLandmarks (replicate (min (min (Suc k) 5 + length fs) 5) lm)"
    by simp_all
  have e: "min (min (Suc k) 5 + length fs) 5 = min (k + length (f # fs)) 5" by simp
  show ?case
  proof (cases fs)
    case Nil
    with h' p' f show ?thesis by simp
  next
    case (Cons g gs)
    with ih e f show ?thesis by simp
  qed
qed

lemma inRange_binary64:
  assumes "1 / 2 ^ 999 \<le> \<bar>v\<bar>" and "\<bar>v\<bar> \<le> 2 ^ 999"
  shows "inRange (binary64 v)"
proof -
  have "(1::real) / 2 ^ 1022 \<le> 1 / 2 ^ 999" by simp
  with assms(1) have "1 / 2 ^ 1022 \<le> \<bar>v\<bar>" by linarith
  from binary64_relative [OF this] obtain d where d: "\<bar>d\<bar> \<le> 1 / 2 ^ 53"
    and b: "binary64 v = v * (1 + d)"
    by blast
  have d': "1 / 2 \<le> 1 + d" "1 + d \<le> 2" using d by (simp_all add: abs_le_iff)
  have abs: "\<bar>binary64 v\<bar> = \<bar>v\<bar> * (1 + d)" using d' by (simp add: b abs_mult)
  have "1 / 2 ^ 1000 = 1 / 2 ^ 999 * (1 / 2 :: real)" by simp
  also have "\<dots> \<le> \<bar>v\<bar> * (1 + d)" using assms(1) d' by (intro mult_mono) simp_all
  finally have lo: "1 / 2 ^ 1000 \<le> \<bar>binary64 v\<bar>" by (simp only: abs)
  have "\<bar>v\<bar> * (1 + d) \<le> 2 ^ 999 * (2 :: real)" using assms(2) d' by (intro mult_mono) simp_all
  also have "\<dots> = 2 ^ 1000" by simp
  finally have hi: "\<bar>binary64 v\<bar> \<le> 2 ^ 1000" by (simp only: abs)
  from lo hi show ?thesis unfolding inRange_def by blast
qed

lemma literalHand_inRange: "list_all inRangePoint literalHand"
  by (simp add: literalHand_def pt64_def inRangePoint_def inRange_binary64) (simp add: inRange_def)

text \<open>
  C6, as stated, fails. Two detector results in a row showing \<open>literalHand\<close> leave two
  copies of it in the history, and the stabilised wrist has the \<open>y\<close> coordinate
  \<open>7205759403792795 / 2 ^ 53\<close> (0.8000000000000002) where the input has
  \<open>3602879701896397 / 2 ^ 52\<close> (0.8): the output is not the input.
\<close>

theorem identical_frames_change_last_bit_counterexample:
  "length literalHand = 21 \<and>
   yc (literalHand ! 0) = 3602879701896397 / 4503599627370496 \<and>
   yc (stabilizePoint [literalHand, literalHand] 0) = 7205759403792795 / 9007199254740992 \<and>
   landmarkHistory (feedFrames [(10000, literalResults), (10100, literalResults)] scanningScanner)
     = [literalHand, literalHand] \<and>
   palmData (feedFrames [(10000, literalResults), (10100, literalResults)] scanningScanner)
     \<noteq> Some literalHand"
proof -
  have l: "length literalHand = 21" by (simp add: literalHand_def)
  have h: "landmarkHistory scanningScanner = replicate 0 literalHand"
    by (simp add: scanningScanner_def initialScanner_def)
  have fs: "\<forall>f \<in> set [(10000::int, literalResults), (10100, literalResults)].
              \<exists>rest. multiHandLandmarks (snd f) = literalHand # rest"
    by (simp add: literalResults_def)
  from feedFrames_identical_history [OF h _ fs]
  have hist: "landmarkHistory (feedFrames [(10000, literalResults), (10100, literalResults)] scanningScanner)
     = [literalHand, literalHand]"
    and pd: "palmData (feedFrames [(10000, literalResults), (10100, literalResults)] scanningScanner)
     = stabilizeLandmarks [literalHand, literalHand]"
    by (simp_all add: numeral_2_eq_2)
  have "stabilizeLandmarks [literalHand, literalHand] \<noteq> Some literalHand"
  proof
    assume "stabilizeLandmarks [literalHand, literalHand] = Some literalHand"
    then have "map (stabilizePoint [literalHand, literalHand]) [0..<21] = literalHand"
      by (simp add: stabilizeLandmarks_def del: upt_Suc)
    then have "map (stabilizePoint [literalHand, literalHand]) [0..<21] ! 0 = literalHand ! 0"
      by simp
    then have "stabilizePoint [literalHand, literalHand] 0 = literalHand ! 0"
      by (simp del: upt_Suc)
    then have "yc (stabilizePoint [literalHand, literalHand] 0) = yc (literalHand ! 0)"
      by simp
    then show False
      by (simp add: two_literal_frames_wrist_y literal_wrist_y)
  qed
  with l hist pd show ?thesis
    by (simp add: two_literal_frames_wrist_y literal_wrist_y)
qed

text \<open>
  C6, amended. Starting with an empty history, after any non-empty sequence of detector
  results that all show the same 21-point landmark set, with coordinates that are zero or
  of a magnitude between \<open>2 powr -1000\<close> and \<open>2 powr 1000\<close>, the history holds that
  landmark set as often as frames were fed, at most five times, and every coordinate of
  the stabilised \<open>palmData\<close> is within a relative error of \<open>2 powr -48\<close> of the
  input coordinate. After exactly one frame the stabilised landmark set is the frame
  itself, and a history of one frame is returned as it is, whatever the frame.
\<close>

theorem stabilizer_identical_frames_up_to_rounding:
  assumes "length lm = 21" and "list_all inRangePoint lm"
    and "landmarkHistory s = []" and "fs \<noteq> []"
    and "\<forall>f \<in> set fs. \<exists>rest. multiHandLandmarks (snd f) = lm # rest"
  shows "landmarkHistory (feedFrames fs s) = replicate (min (length fs) 5) lm \<and>
         (\<exists>out. palmData (feedFrames fs s) = Some out \<and> list_all2 closePoint out lm) \<and>
         (length fs = 1 \<longrightarrow> palmData (feedFrames fs s) = Some lm) \<and>
         stabilizeLandmarks [frame] = Some frame"
proof -
  have h: "landmarkHistory s = replicate 0 lm" using assms(3) by simp
  from feedFrames_identical_history [OF h _ assms(5)] assms(4)
  have hist: "landmarkHistory (feedFrames fs s) = replicate (min (length fs) 5) lm"
    and pd: "palmData (feedFrames fs s) = stabilizeLandmarks (replicate (min (length fs) 5) lm)"
    by simp_all
  have n: "0 < min (length fs) 5" "min (length fs) 5 \<le> 5" using assms(4) by simp_all
  from stabilizeLandmarks_identical_close [OF assms(1) n assms(2)] pd
  have "\<exists>out. palmData (feedFrames fs s) = Some out \<and> list_all2 closePoint out lm" by simp
  moreover have "length fs = 1 \<longrightarrow> palmData (feedFrames fs s) = Some lm"
    using pd by (simp add: stabilizeLandmarks_def)
  moreover have "stabilizeLandmarks [frame] = Some frame"
    by (simp add: stabilizeLandmarks_def)
  ultimately show ?thesis using hist by simp
qed

theorem stabilizer_identical_frames_up_to_rounding_witness:
  "length literalHand = 21 \<and> list_all inRangePoint literalHand \<and>
   landmarkHistory scanningScanner = [] \<and>
   landmarkHistory (feedFrames [(10000, literalResults), (10100, literalResults)] scanningScanner)
     = [literalHand, literalHand] \<and>
   (\<exists>out. palmData (feedFrames [(10000, literalResults), (10100, literalResults)] scanningScanner)
            = Some out \<and> list_all2 closePoint out literalHand) \<and>
   palmData (feedFrames [(10000, literalResults)] scanningScanner) = Some literalHand"
proof -
  have h1: "length literalHand = 21" by (simp add: literalHand_def)
  have h3: "landmarkHistory scanningScanner = []"
    by (simp add: scanningScanner_def initialScanner_def)
  have h4: "[(10000::int, literalResults), (10100, literalResults)] \<noteq> []"
    and h4': "[(10000::int, literalResults)] \<noteq> []"
    by simp_all
  have h5: "\<forall>f \<in> set [(10000::int, literalResults), (10100, literalResults)].
              \<exists>rest. multiHandLandmarks (snd f) = literalHand # rest"
    and h5': "\<forall>f \<in> set [(10000::int, literalResults)].
              \<exists>rest. multiHandLandmarks (snd f) = literalHand # rest"
    by (simp_all add: literalResults_def)
  from stabilizer_identical_frames_up_to_rounding [OF h1 literalHand_inRange h3 h4 h5]
    stabilizer_identical_frames_up_to_rounding [OF h1 literalHand_inRange h3 h4' h5']
    h1 h3 literalHand_inRange
  show ?thesis by (simp add: numeral_2_eq_2)
qed

section \<open>Rotation and handedness\<close>

text \<open>
  C7, as stated, fails: \<open>checkHandRotation\<close> does not read the handedness label.
  On \<open>tiltedHand\<close> it returns -45 whatever the label, where the negation for the
  label \<open>Left\<close> gives 45.
\<close>

theorem rotation_ignores_handedness_label_counterexample:
  "checkHandRotation tiltedHand = - 45 \<and> rotationDeg_spec tiltedHand (Some ''Left'') = 45"
proof -
  have a: "arctan (- 1) = - (pi / 4)" by (simp add: arctan_minus arctan_one)
  have "atan2 (- (1 / 10), False) (1 / 10, False) = - (pi / 4)"
    by (simp add: atan2_def a)
  then show ?thesis
    by (simp add: checkHandRotation_value rotationDeg_spec_value tiltedHand_def pt_def Let_def)
qed

text \<open>
  C7, amended. \<open>checkHandRotation\<close> returns the signed \<open>atan2\<close> angle in degrees
  between the wrist-to-middle-finger-base vector \<open>(dx, dy)\<close> and the up vector
  \<open>(0, -1)\<close>, negated exactly when the index base lies to the right of the pinky base
  (\<open>index.x > pinky.x\<close>): it is the angle of the specification with the label
  replaced by that test on the landmarks. The arguments of \<open>atan2\<close> are \<open>- dx\<close>, a
  negative zero when \<open>dy\<close> is not negative, and \<open>- dy\<close>, a negative zero when
  \<open>dx\<close> is negative.
\<close>

theorem rotation_negated_by_geometry:
  assumes "length lm = 21"
  shows "checkHandRotation lm =
           (let dx = xc (lm ! 9) - xc (lm ! 0); dy = yc (lm ! 9) - yc (lm ! 0);
                a = atan2 (- dx, 0 \<le> dy) (- dy, dx < 0) * (180 / pi)
            in if xc (lm ! 5) > xc (lm ! 17) then - a else a) \<and>
         checkHandRotation lm =
           rotationDeg_spec lm (if xc (lm ! 5) > xc (lm ! 17) then Some ''Left'' else Some ''Right'')"
  by (simp add: checkHandRotation_value rotationDeg_spec_value Let_def)

theorem rotation_negated_by_geometry_witness:
  "length tiltedHand = 21 \<and> \<not> xc (tiltedHand ! 5) > xc (tiltedHand ! 17) \<and>
   checkHandRotation tiltedHand = rotationDeg_spec tiltedHand (Some ''Right'')"
proof -
  have l: "length tiltedHand = 21" by (simp add: tiltedHand_def)
  have g: "\<not> xc (tiltedHand ! 5) > xc (tiltedHand ! 17)" by (simp add: tiltedHand_def pt_def)
  from rotation_negated_by_geometry [OF l] l g show ?thesis by simp
qed

text \<open>
  On a hand pointing straight down (middle-finger base exactly below the wrist in the
  image) the first argument of \<open>atan2\<close> is a negative zero and the angle is -180
  degrees, 180 after the negation.
\<close>

lemma rotation_pointing_down:
  assumes "xc (lm ! 9) = xc (lm ! 0)" and "yc (lm ! 0) < yc (lm ! 9)"
  shows "checkHandRotation lm = (if xc (lm ! 5) > xc (lm ! 17) then 180 else - 180)"
  using assms by (simp add: checkHandRotation_value atan2_def signbit_def Let_def)

section \<open>Order and coverage of the validation chain\<close>

lemma fold_visible:
  "fold (\<lambda>landmark vis.
           if xc landmark < m \<or> xc landmark > 1 - m \<or> yc landmark < m \<or> yc landmark > 1 - m
           then False else vis) lm b
   = (b \<and> (\<forall>l \<in> set lm. m \<le> xc l \<and> xc l \<le> 1 - m \<and> m \<le> yc l \<and> yc l \<le> 1 - m))"
  by (induction lm arbitrary: b) (auto simp: not_less)

lemma fullyVisible_iff:
  "fullyVisible lm \<longleftrightarrow> (\<forall>l \<in> set lm. 0.05 \<le> xc l \<and> xc l \<le> 0.95 \<and> 0.05 \<le> yc l \<and> yc l \<le> 0.95)"
  by (simp add: fullyVisible_def fold_visible)

lemma js_ge_not_less: "js_ge a b \<Longrightarrow> \<not> js_less a b"
  by (cases a; cases b) simp_all

lemma edge_not_flat: "\<not> checkHandFlatness edgeHand"
  by (simp add: checkHandFlatness_def calculatePalmCenter_def edgeHand_def evalhand)

text \<open>
  The order of the chain on hands whose alignment compares with 0.3. The visibility check
  fails exactly when some landmark lies within the 5% margin of an edge, and then the
  classification is \<open>OutOfFrame\<close>, also when the flatness check fails as well. After it
  the first failing check in the order finger extension, too close, too far, alignment,
  orientation, rotation, flatness gives the classification, and a hand passing all of them
  is \<open>Perfect\<close>. Passing the alignment check is \<open>alignment >= 0.3\<close> here; an alignment
  that is \<open>NaN\<close> neither passes nor fails and is not covered.
\<close>

lemma classification_order:
  assumes "length lm = 21"
  shows "((\<exists>l \<in> set lm. xc l < 0.05 \<or> xc l > 0.95 \<or> yc l < 0.05 \<or> yc l > 0.95) \<longleftrightarrow> \<not> fullyVisible lm) \<and>
    (\<not> fullyVisible lm \<longrightarrow> classify label lm = Some OutOfFrame) \<and>
    (\<not> fullyVisible lm \<and> \<not> checkHandFlatness lm \<longrightarrow>
       classify label lm = Some OutOfFrame \<and> classify label lm \<noteq> Some NotFlat) \<and>
    (fullyVisible lm \<and> \<not> checkFingerExtension lm \<longrightarrow> classify label lm = Some FingersNotExtended) \<and>
    (fullyVisible lm \<and> checkFingerExtension lm \<and> calculateDistance lm < 5 \<longrightarrow>
       classify label lm = Some TooClose) \<and>
    (fullyVisible lm \<and> checkFingerExtension lm \<and> 5 \<le> calculateDistance lm \<and>
     calculateDistance lm > 45 \<longrightarrow> classify label lm = Some TooFar) \<and>
    (fullyVisible lm \<and> checkFingerExtension lm \<and> 5 \<le> calculateDistance lm \<and>
     calculateDistance lm \<le> 45 \<and> js_less (calculateAlignment lm) (Num 0.3) \<longrightarrow>
       classify label lm = Some NotCentered) \<and>
    (fullyVisible lm \<and> checkFingerExtension lm \<and> 5 \<le> calculateDistance lm \<and>
     calculateDistance lm \<le> 45 \<and> js_ge (calculateAlignment lm) (Num 0.3) \<longrightarrow>
       (\<not> checkPalmOrientation label lm \<longrightarrow> classify label lm = Some WrongOrientation) \<and>
       (checkPalmOrientation label lm \<and> \<bar>checkHandRotation lm\<bar> > 30 \<longrightarrow>
          classify label lm = Some (Rotated (checkHandRotation lm))) \<and>
       (checkPalmOrientation label lm \<and> \<bar>checkHandRotation lm\<bar> \<le> 30 \<and>
        \<not> checkHandFlatness lm \<longrightarrow> classify label lm = Some NotFlat) \<and>
       (checkPalmOrientation label lm \<and> \<bar>checkHandRotation lm\<bar> \<le> 30 \<and>
        checkHandFlatness lm \<longrightarrow> classify label lm = Some Perfect))"
proof -
  have "(\<exists>l \<in> set lm. xc l < 0.05 \<or> xc l > 0.95 \<or> yc l < 0.05 \<or> yc l > 0.95) \<longleftrightarrow> \<not> fullyVisible lm"
    by (auto simp: fullyVisible_iff not_le)
  moreover have "js_ge (calculateAlignment lm) (Num 0.3) \<Longrightarrow>
      \<not> js_less (calculateAlignment lm) (Num 0.3)"
    by (rule js_ge_not_less)
  ultimately show ?thesis
    by (auto simp: classify_def Let_def)
qed

lemma classification_order_examples:
  "length edgeHand = 21 \<and> \<not> fullyVisible edgeHand \<and> \<not> checkHandFlatness edgeHand \<and>
   classify None edgeHand = Some OutOfFrame \<and>
   length perfectHand = 21 \<and> classify None perfectHand = Some Perfect"
proof -
  have l: "length edgeHand = 21" by (simp add: edgeHand_def)
  have v: "\<not> fullyVisible edgeHand" by (simp add: fullyVisible_iff edgeHand_def pt_def)
  have l': "length perfectHand = 21" by (simp add: perfectHand_def)
  have al: "js_ge (calculateAlignment perfectHand) (Num 0.3)" by (simp add: perfect_align)
  from classification_order [OF l, of None] classification_order [OF l', of None]
    l v edge_not_flat l' al perfect_visible perfect_ext perfect_dist perfect_orient perfect_rot
    perfect_flat
  show ?thesis by simp
qed

lemma sqrt_vals2: "sqrt (1/16) = 1/4" "sqrt (1/64) = 1/8"
  by (rule sqrt_eqI; simp)+

lemma degenerate_area: "calculatePalmArea degenerateHand = 1/64"
  by (simp add: calculatePalmArea_def palmPoints_def degenerateHand_def evalhand)

lemma degenerate_dist: "calculateDistance degenerateHand = 41"
  by (simp add: calculateDistance_def degenerate_area round_def)

lemma degenerate_visible: "fullyVisible degenerateHand"
  by (simp add: fullyVisible_iff degenerateHand_def pt_def)

lemma degenerate_ext: "checkFingerExtension degenerateHand"
  by (simp add: checkFingerExtension_def fingerStraightness_def jsdiv_def degenerateHand_def
      evalhand sqrt_vals2)

lemma degenerate_normal: "calculatePalmNormal_z degenerateHand = NaN"
  by (simp add: calculatePalmNormal_z_def jsdiv_def degenerateHand_def evalhand)

lemma degenerate_align: "calculateAlignment degenerateHand = NaN"
  unfolding calculateAlignment_def degenerate_normal
  by (simp add: degenerateHand_def evalhand)

lemma degenerate_not_oriented: "\<not> checkPalmOrientation (Some ''Right'') degenerateHand"
  by (simp add: checkPalmOrientation_def degenerateHand_def evalhand)

text \<open>
  C3 fails on \<open>degenerateHand\<close> with the label \<open>Right\<close>. The hand passes the
  visibility check, the finger-extension check and both distance checks, and
  \<open>alignment < 0.3\<close> is false since the alignment is \<open>NaN\<close>; the orientation check is
  the first check that fails. The classification is not \<open>WrongOrientation\<close>: no branch
  is taken.
\<close>

theorem first_failing_check_lost_on_NaN:
  "length degenerateHand = 21 \<and> fullyVisible degenerateHand \<and>
   checkFingerExtension degenerateHand \<and>
   \<not> calculateDistance degenerateHand < 5 \<and> \<not> calculateDistance degenerateHand > 45 \<and>
   \<not> js_less (calculateAlignment degenerateHand) (Num 0.3) \<and>
   \<not> checkPalmOrientation (Some ''Right'') degenerateHand \<and>
   classify (Some ''Right'') degenerateHand \<noteq> Some WrongOrientation \<and>
   classify (Some ''Right'') degenerateHand = None"
  by (simp add: classify_def degenerate_visible degenerate_ext degenerate_dist degenerate_align
      degenerate_not_oriented) (simp add: degenerateHand_def)

text \<open>
  C9 fails on \<open>degenerateHand\<close>. The hand is fully visible, has its fingers
  extended and is at distance 41, but its palm normal is \<open>0/0\<close>, so the alignment
  is \<open>NaN\<close> and neither \<open>alignment < 0.3\<close> nor \<open>alignment >= 0.3\<close> holds:
  no branch of the chain is taken, the status is not updated and an armed debouncer stays
  armed.
\<close>

theorem classification_falls_through_on_NaN:
  "length degenerateHand = 21 \<and> fullyVisible degenerateHand \<and>
   checkFingerExtension degenerateHand \<and> calculateDistance degenerateHand = 41 \<and>
   calculateAlignment degenerateHand = NaN \<and>
   classify (Some ''Right'') degenerateHand = None \<and>
   updatePalmVisualization 10100 degenerateHand armedScanner = (armedScanner, False)"
  by (simp add: classify_def updatePalmVisualization_def degenerate_visible degenerate_ext
      degenerate_dist degenerate_align) (simp add: degenerateHand_def)

text \<open>
  The alignment is a finite number or \<open>NaN\<close>, and whenever it is a number a
  branch of the chain is taken.
\<close>

lemma clamp_Num_or_NaN: "js_max (Num 0) (js_min (Num 1) a) = NaN \<or> (\<exists>r. js_max (Num 0) (js_min (Num 1) a) = Num r)"
  by (cases a) simp_all

lemma calculateAlignment_Num_or_NaN:
  "calculateAlignment lm = NaN \<or> (\<exists>r. calculateAlignment lm = Num r)"
  unfolding calculateAlignment_def Let_def
  using clamp_Num_or_NaN by (auto simp del: js_max.simps js_min.simps)

lemma classify_total_unless_NaN:
  assumes "calculateAlignment lm \<noteq> NaN"
  shows "classify label lm \<noteq> None"
proof -
  from assms calculateAlignment_Num_or_NaN [of lm]
  obtain r where r: "calculateAlignment lm = Num r" by auto
  show ?thesis
    by (auto simp: classify_def Let_def r)
qed

end
